theory Spec2Isabelle
  imports Complex_Main "HOL-Library.Sublist" "HOL-Library.Log_Nat"
begin

section \<open>Strings\<close>

text \<open>
  The viewer script works on JavaScript strings.  They are modelled as \<^typ>\<open>string\<close>, the
  sequence of UTF-8 bytes of the text.  Every operation the script applies to a string
  (\<^verbatim>\<open>===\<close>, \<^verbatim>\<open>startsWith\<close> with an ASCII prefix, \<^verbatim>\<open>split(':')\<close>, \<^verbatim>\<open>replace\<close> of an
  ASCII character, concatenation) gives the same text on UTF-8 bytes as on UTF-16 code
  units, because an ASCII character is one unit in both encodings and never part of a
  longer sequence.  The four glyphs the script displays are written out as their bytes.
\<close>

definition GREEN_CIRCLE :: string where
  "GREEN_CIRCLE = [CHR 0xF0, CHR 0x9F, CHR 0x9F, CHR 0xA2]"

definition RED_CIRCLE :: string where
  "RED_CIRCLE = [CHR 0xF0, CHR 0x9F, CHR 0x94, CHR 0xB4]"

definition WHITE_CIRCLE :: string where
  "WHITE_CIRCLE = [CHR 0xE2, CHR 0x9A, CHR 0xAA]"

definition HOURGLASS :: string where
  "HOURGLASS = [CHR 0xE2, CHR 0x8F, CHR 0xB3]"

text \<open>\<^verbatim>\<open>s.startsWith(p)\<close>.\<close>

definition startsWith :: "string \<Rightarrow> string \<Rightarrow> bool" where
  "startsWith s p = (take (length p) s = p)"

text \<open>
  \<^verbatim>\<open>s.split(c)\<close> for a one-character separator: the pieces between all occurrences of
  the separator.  The result is never empty (\<^verbatim>\<open>"".split(':')\<close> is \<^verbatim>\<open>[""]\<close>).
\<close>

fun split :: "char \<Rightarrow> string \<Rightarrow> string list" where
  "split c [] = [[]]"
| "split c (x # xs) =
     (if x = c then [] # split c xs
      else (case split c xs of [] \<Rightarrow> [[x]] | w # ws \<Rightarrow> (x # w) # ws))"

text \<open>
  Reading an array element inside a template literal: an index past the end reads
  \<^verbatim>\<open>undefined\<close>, which the template prints as the text \<^verbatim>\<open>undefined\<close>.
\<close>

definition at_index :: "string list \<Rightarrow> nat \<Rightarrow> string" where
  "at_index xs i = (if i < length xs then xs ! i else ''undefined'')"

section \<open>Formatting utilities\<close>

text \<open>\<^verbatim>\<open>s.replace(/c/g, r)\<close> for a single literal character \<open>c\<close>: every occurrence is replaced.\<close>

definition replaceAll :: "char \<Rightarrow> string \<Rightarrow> string \<Rightarrow> string" where
  "replaceAll c r s = concat (map (\<lambda>x. if x = c then r else [x]) s)"

text \<open>\<^verbatim>\<open>escapeHtml\<close> (script.js, lines 268-275): five replacements, one after the other.\<close>

definition escapeHtml :: "string \<Rightarrow> string" where
  "escapeHtml unsafe =
     replaceAll (CHR 0x27) ''&#039;''
       (replaceAll (CHR 0x22) ''&quot;''
         (replaceAll CHR ''>'' ''&gt;''
           (replaceAll CHR ''<'' ''&lt;''
             (replaceAll CHR ''&'' ''&amp;'' unsafe))))"

text \<open>
  The specification's reading of the escape: each character on its own, the five special
  ones replaced by their entity, every other character kept.
\<close>

definition entity_of :: "char \<Rightarrow> string" where
  "entity_of c =
     (if c = CHR ''&'' then ''&amp;''
      else if c = CHR ''<'' then ''&lt;''
      else if c = CHR ''>'' then ''&gt;''
      else if c = CHR 0x22 then ''&quot;''
      else if c = CHR 0x27 then ''&#039;''
      else [c])"

text \<open>
  The raw characters that must not survive in escaped text, and the check that every
  ampersand of a text starts one of the five entities.
\<close>

definition raw_specials :: "char set" where
  "raw_specials = {CHR ''<'', CHR ''>'', CHR 0x22, CHR 0x27}"

fun entities_only :: "string \<Rightarrow> bool" where
  "entities_only [] = True"
| "entities_only (c # cs) =
     ((c \<noteq> CHR ''&'' \<or>
       prefix ''amp;'' cs \<or> prefix ''lt;'' cs \<or> prefix ''gt;'' cs \<or>
       prefix ''quot;'' cs \<or> prefix ''#039;'' cs) \<and> entities_only cs)"

text \<open>
  What a browser shows for escaped text placed between tags: the text with the five
  character references read back.  (The text holds no tag, since it holds no \<open><\<close>; an
  ampersand that starts none of the five references is kept as it is.)
\<close>

fun textContent :: "string \<Rightarrow> string" where
  "textContent [] = []"
| "textContent (c # cs) =
     (if c \<noteq> CHR ''&'' then c # textContent cs
      else if prefix ''amp;'' cs then CHR ''&'' # textContent (drop 4 cs)
      else if prefix ''lt;'' cs then CHR ''<'' # textContent (drop 3 cs)
      else if prefix ''gt;'' cs then CHR ''>'' # textContent (drop 3 cs)
      else if prefix ''quot;'' cs then CHR 0x22 # textContent (drop 5 cs)
      else if prefix ''#039;'' cs then CHR 0x27 # textContent (drop 5 cs)
      else c # textContent cs)"

section \<open>Flag-state codec\<close>

text \<open>
  \<^verbatim>\<open>getFlagIcon\<close> (script.js, lines 97-105).  The flag of a message is a string or
  \<^verbatim>\<open>null\<close> (\<open>None\<close>); \<^verbatim>\<open>flag && ...\<close> is false for \<^verbatim>\<open>null\<close> and for the empty string.
  \<open>pending_emoji\<close> is the local \<^verbatim>\<open>const emoji = flag.split(':')[1]\<close>.
\<close>

definition pending_emoji :: "string \<Rightarrow> string" where
  "pending_emoji flag = at_index (split CHR '':'' flag) 1"

definition getFlagIcon :: "string option \<Rightarrow> string" where
  \<open>getFlagIcon flag =
     (if flag = Some ''green'' then GREEN_CIRCLE
      else if flag = Some ''red'' then RED_CIRCLE
      else (case flag of
              None \<Rightarrow> WHITE_CIRCLE
            | Some f \<Rightarrow>
                if f \<noteq> [] \<and> startsWith f ''pending_react:'' then
                  (let emoji = pending_emoji f
                   in ''<span title="Pending reaction: '' @ emoji @ ''">'' @ HOURGLASS @ emoji @ ''</span>'')
                else WHITE_CIRCLE))\<close>

text \<open>
  The state name of a flag value, as \<^verbatim>\<open>toggleFlag\<close> derives it (script.js, line 185):
  \<^verbatim>\<open>`flag-${color.split(':')[0]}`\<close>.
\<close>

definition flag_class :: "string \<Rightarrow> string" where
  "flag_class color = ''flag-'' @ at_index (split CHR '':'' color) 0"

section \<open>Message elements and the renderer\<close>

text \<open>
  Markup is modelled by the DOM structure a browser builds from it.  A message element is
  the \<^verbatim>\<open>div.message-item\<close> that \<^verbatim>\<open>renderMessage\<close> emits: its \<^verbatim>\<open>id\<close> attribute, its class
  list (an ordered set of tokens), the two escaped text fields, and the markup inside its
  \<^verbatim>\<open>span.flag-indicator\<close> (\<open>None\<close> for an element without such a child, where
  \<^verbatim>\<open>querySelector\<close> returns \<^verbatim>\<open>null\<close>).
\<close>

record element =
  el_id :: string
  classList :: "string list"
  author_html :: string
  content_html :: string
  flag_indicator :: "string option"

record message =
  msg_id :: string
  author_name :: string
  content :: string
  timestamp :: string
  attachment_urls :: "string list"
  flag :: "string option"

definition ascii_ws :: "char set" where
  "ascii_ws = {CHR 0x09, CHR 0x0A, CHR 0x0C, CHR 0x0D, CHR 0x20}"

text \<open>
  How a browser reads a \<^verbatim>\<open>class\<close> attribute: the text is cut at ASCII whitespace, empty
  pieces are dropped, and a token already present is not added again.
\<close>

fun ws_tokens :: "string \<Rightarrow> string \<Rightarrow> string list" where
  "ws_tokens acc [] = (if acc = [] then [] else [acc])"
| "ws_tokens acc (c # cs) =
     (if c \<in> ascii_ws then (if acc = [] then ws_tokens [] cs else acc # ws_tokens [] cs)
      else ws_tokens (acc @ [c]) cs)"

definition insert_token :: "string list \<Rightarrow> string \<Rightarrow> string list" where
  "insert_token cl t = (if t \<in> set cl then cl else cl @ [t])"

definition class_tokens :: "string \<Rightarrow> string list" where
  "class_tokens attr = foldl insert_token [] (ws_tokens [] attr)"

text \<open>
  \<^verbatim>\<open>renderMessage\<close> (script.js, lines 69-95).  \<open>flagClass\<close> is the local of that name and
  \<open>renderMessage_class\<close> the text of the \<^verbatim>\<open>class\<close> attribute the template builds.  The
  model keeps the root element's identifier and class list, the escaped author and
  content, and the flag indicator; the timestamp, the attachments and the buttons carry
  no flag state and are left out.
\<close>

definition flagClass :: "message \<Rightarrow> string" where
  "flagClass msg =
     (if flag msg = Some ''green'' then ''flag-green''
      else if flag msg = Some ''red'' then ''flag-red''
      else [])"

definition renderMessage_class :: "message \<Rightarrow> bool \<Rightarrow> string" where
  "renderMessage_class msg isTarget =
     ''message-item '' @ (if isTarget then ''target-message'' else []) @ '' '' @ flagClass msg"

definition renderMessage :: "message \<Rightarrow> bool \<Rightarrow> element" where
  "renderMessage msg isTarget =
     \<lparr>el_id = ''msg-'' @ msg_id msg,
      classList = class_tokens (renderMessage_class msg isTarget),
      author_html = escapeHtml (author_name msg),
      content_html = escapeHtml (content msg),
      flag_indicator = Some (getFlagIcon (flag msg))\<rparr>"

text \<open>The three state classes that \<^verbatim>\<open>toggleFlag\<close> clears, and the ones an element carries.\<close>

definition state_classes :: "string list" where
  "state_classes = [''flag-green'', ''flag-red'', ''flag-pending_react'']"

definition structural_classes :: "element \<Rightarrow> string list" where
  "structural_classes el = filter (\<lambda>c. c \<in> set state_classes) (classList el)"

section \<open>Flag mutation\<close>

text \<open>
  Values a \<^verbatim>\<open>try\<close> block of the script can throw: a rejected \<^verbatim>\<open>fetch\<close>, a selector or
  token that does not parse, a class token with whitespace in it, a call with more
  arguments than the engine takes.
\<close>

datatype js_error = FetchRejected | SyntaxError | InvalidCharacterError | RangeError

text \<open>
  \<^verbatim>\<open>classList.remove(t1, t2, t3)\<close> with well-formed tokens, and \<^verbatim>\<open>classList.add(t)\<close>, which
  throws on an empty token and on a token that contains ASCII whitespace.
\<close>

definition classList_remove :: "string list \<Rightarrow> string list \<Rightarrow> string list" where
  "classList_remove tokens cl = filter (\<lambda>c. c \<notin> set tokens) cl"

definition classList_add :: "string \<Rightarrow> string list \<Rightarrow> js_error + string list" where
  "classList_add t cl =
     (if t = [] then Inl SyntaxError
      else if set t \<inter> ascii_ws \<noteq> {} then Inl InvalidCharacterError
      else Inr (insert_token cl t))"

text \<open>\<^verbatim>\<open>if (icon) icon.innerHTML = getFlagIcon(color)\<close>.\<close>

definition set_icon :: "string \<Rightarrow> element \<Rightarrow> element" where
  "set_icon color el =
     (case flag_indicator el of
        None \<Rightarrow> el
      | Some old \<Rightarrow> el\<lparr>flag_indicator := Some (getFlagIcon (Some color))\<rparr>)"

text \<open>
  The body of the \<^verbatim>\<open>forEach\<close> callback of \<^verbatim>\<open>toggleFlag\<close> (script.js, lines 184-188).  It
  returns the element as it stands when the callback ends, and the value thrown, if any:
  the three classes are already removed when \<^verbatim>\<open>classList.add\<close> throws.
\<close>

definition patch_element :: "string \<Rightarrow> element \<Rightarrow> element \<times> js_error option" where
  "patch_element color el =
     (let el1 = el\<lparr>classList := classList_remove state_classes (classList el)\<rparr>
      in if color \<noteq> ''none'' then
           (case classList_add (flag_class color) (classList el1) of
              Inl err \<Rightarrow> (el1, Some err)
            | Inr cl \<Rightarrow> (set_icon color (el1\<lparr>classList := cl\<rparr>), None))
         else (set_icon color el1, None))"

text \<open>
  The selector of \<^verbatim>\<open>toggleFlag\<close> is the text \<^verbatim>\<open>[id="msg-<id>"]\<close>, with the identifier put in
  as it is.  For an identifier without a double quote, a backslash or a line break the
  text is one attribute selector, and selects the elements whose \<^verbatim>\<open>id\<close> is \<^verbatim>\<open>msg-<id>\<close>.
\<close>

definition selector_safe :: "string \<Rightarrow> bool" where
  "selector_safe messageId =
     (set messageId \<inter> {CHR 0x22, CHR 0x5C, CHR 0x0A, CHR 0x0C, CHR 0x0D} = {})"

definition flag_selector :: "string \<Rightarrow> string" where
  \<open>flag_selector messageId = ''[id="msg-'' @ messageId @ ''"]''\<close>

text \<open>
  With one of those characters in the identifier the text is read by the CSS parser of
  the browser in some other way (an escape, a longer selector list, or no selector at
  all).  That parser is no part of the script; it is the parameter \<open>css\<close> of the model:
  from the selector text and the message elements of the document, the value thrown, or
  for each element whether it is selected.
\<close>

type_synonym selector_engine = "string \<Rightarrow> element list \<Rightarrow> js_error + bool list"

text \<open>
  \<^verbatim>\<open>document.querySelectorAll(`[id="msg-${messageId}"]`)\<close>: the message elements selected,
  as one mark per element of the document, in document order.
\<close>

definition querySelectorAll ::
  "selector_engine \<Rightarrow> string \<Rightarrow> element list \<Rightarrow> js_error + bool list" where
  "querySelectorAll css messageId els =
     (if selector_safe messageId then Inr (map (\<lambda>el. el_id el = ''msg-'' @ messageId) els)
      else css (flag_selector messageId) els)"

text \<open>
  \<^verbatim>\<open>msgElements.forEach(...)\<close>: the selected elements are patched in document order, and a
  throw ends the walk.
\<close>

fun forEach_patch :: "string \<Rightarrow> bool list \<Rightarrow> element list \<Rightarrow> element list \<times> js_error option" where
  "forEach_patch color (selected # marks) (el # els) =
     (if selected then
        (case patch_element color el of
           (el', Some err) \<Rightarrow> (el' # els, Some err)
         | (el', None) \<Rightarrow>
             (case forEach_patch color marks els of (els', r) \<Rightarrow> (el' # els', r)))
      else (case forEach_patch color marks els of (els', r) \<Rightarrow> (el # els', r)))"
| "forEach_patch color marks els = (els, None)"

section \<open>Session state\<close>

text \<open>
  What the backend answers to a request: the \<^verbatim>\<open>fetch\<close> promise rejects, or a response
  arrives whose \<^verbatim>\<open>ok\<close> is true or false.
\<close>

datatype fetch_outcome = Rejected | Responded bool

record request =
  req_method :: string
  req_url :: string
  req_flag :: "string option"

record reaction =
  emoji_str :: string
  emoji_id :: "string option"
  emoji_name :: string
  reaction_count :: int

datatype reactions_response =
  ReactionsRejected | ReactionsError string | ReactionsList "reaction list"

text \<open>
  The content of the emoji list of the modal: a placeholder paragraph (its markup), or
  one chip per reaction.
\<close>

datatype picker_content = PickerPlaceholder string | PickerChips "reaction list"

text \<open>
  The state the functions below read and write: the message elements of the document in
  document order (those of the search list and those of the context list), the entries
  written by \<^verbatim>\<open>console.error\<close>, the requests sent, the \<^verbatim>\<open>display\<close> of the reaction modal,
  the global \<^verbatim>\<open>currentMessageIdForReact\<close>, and the list and subtitle of the modal.
\<close>

record ui_state =
  document :: "element list"
  console :: "(string \<times> js_error) list"
  requests :: "request list"
  modal_display :: string
  currentMessageIdForReact :: "string option"
  emoji_list :: picker_content
  modal_subtitle :: string

definition API_BASE :: string where
  "API_BASE = ''http://localhost:8000''"

definition flag_request :: "string \<Rightarrow> string \<Rightarrow> request" where
  "flag_request messageId color =
     \<lparr>req_method = ''PUT'',
      req_url = API_BASE @ ''/messages/'' @ messageId @ ''/flag'',
      req_flag = Some color\<rparr>"

text \<open>
  \<^verbatim>\<open>toggleFlag\<close> (script.js, lines 172-194).  \<open>toggleFlag_try\<close> is the \<^verbatim>\<open>try\<close> block: the
  state when the block ends, and the value thrown, if any.  \<open>toggleFlag\<close> adds the
  \<^verbatim>\<open>catch\<close> block, so nothing is thrown to the caller.
\<close>

definition toggleFlag_try ::
  "selector_engine \<Rightarrow> fetch_outcome \<Rightarrow> string \<Rightarrow> string \<Rightarrow> ui_state \<Rightarrow>
     ui_state \<times> js_error option" where
  "toggleFlag_try css outcome messageId color s =
     (let s1 = s\<lparr>requests := requests s @ [flag_request messageId color]\<rparr>
      in case outcome of
           Rejected \<Rightarrow> (s1, Some FetchRejected)
         | Responded ok \<Rightarrow>
             if ok then
               (case querySelectorAll css messageId (document s1) of
                  Inl err \<Rightarrow> (s1, Some err)
                | Inr msgElements \<Rightarrow>
                    (case forEach_patch color msgElements (document s1) of
                       (d, r) \<Rightarrow> (s1\<lparr>document := d\<rparr>, r)))
             else (s1, None))"

definition toggleFlag ::
  "selector_engine \<Rightarrow> fetch_outcome \<Rightarrow> string \<Rightarrow> string \<Rightarrow> ui_state \<Rightarrow> ui_state" where
  "toggleFlag css outcome messageId color s =
     (case toggleFlag_try css outcome messageId color s of
        (s', None) \<Rightarrow> s'
      | (s', Some err) \<Rightarrow> s'\<lparr>console := console s' @ [(''Failed to update flag:'', err)]\<rparr>)"

section \<open>Reaction picker\<close>

text \<open>Decimal digits of a number, as a template literal prints it.\<close>

fun decimal :: "nat \<Rightarrow> string" where
  "decimal n =
     (if n < 10 then [''0123456789'' ! n]
      else decimal (n div 10) @ [''0123456789'' ! (n mod 10)])"

declare decimal.simps [simp del]

text \<open>
  \<^verbatim>\<open>promptReact\<close> (script.js, lines 109-144).  An answer with a non-empty \<^verbatim>\<open>error\<close> field is
  reported; one with an empty \<^verbatim>\<open>error\<close> falls through to \<^verbatim>\<open>reactions.map\<close>, which throws.
\<close>

definition promptReact :: "reactions_response \<Rightarrow> string \<Rightarrow> ui_state \<Rightarrow> ui_state" where
  \<open>promptReact resp messageId s =
     (let s1 = s\<lparr>currentMessageIdForReact := Some messageId,
                 modal_display := ''block'',
                 emoji_list := PickerPlaceholder ''<p class="placeholder">Fetching reactions...</p>'',
                 modal_subtitle := ''Fetching current reactions from Discord...'',
                 requests := requests s @
                   [\<lparr>req_method = ''GET'',
                     req_url = API_BASE @ ''/messages/'' @ messageId @ ''/reactions'',
                     req_flag = None\<rparr>]\<rparr>;
          network_error = PickerPlaceholder ''<p class="placeholder" style="color: #ff4747">Network error.</p>''
      in case resp of
           ReactionsRejected \<Rightarrow> s1\<lparr>emoji_list := network_error\<rparr>
         | ReactionsError e \<Rightarrow>
             if e \<noteq> [] then
               s1\<lparr>emoji_list := PickerPlaceholder
                     (''<p class="placeholder" style="color: #ff4747">Error: '' @ e @ ''</p>''),
                  modal_subtitle := ''Failed to fetch reactions.''\<rparr>
             else
               s1\<lparr>modal_subtitle := ''Select one of the undefined reactions found:'',
                  emoji_list := network_error\<rparr>
         | ReactionsList reactions \<Rightarrow>
             if length reactions = 0 then
               s1\<lparr>emoji_list := PickerPlaceholder ''<p class="placeholder">No reactions found on this post.</p>'',
                  modal_subtitle := ''This post has no reactions yet.''\<rparr>
             else
               s1\<lparr>modal_subtitle :=
                     ''Select one of the '' @ decimal (length reactions) @ '' reactions found:'',
                  emoji_list := PickerChips reactions\<rparr>)\<close>

text \<open>\<^verbatim>\<open>closeModal\<close> (script.js, lines 146-149).\<close>

definition closeModal :: "ui_state \<Rightarrow> ui_state" where
  "closeModal s = s\<lparr>modal_display := ''none'', currentMessageIdForReact := None\<rparr>"

text \<open>
  \<^verbatim>\<open>selectEmoji\<close> (script.js, lines 151-156).  \<^verbatim>\<open>if (currentMessageIdForReact)\<close> holds
  for a string that is not empty.
\<close>

definition selectEmoji ::
  "selector_engine \<Rightarrow> fetch_outcome \<Rightarrow> string \<Rightarrow> ui_state \<Rightarrow> ui_state" where
  "selectEmoji css outcome emojiStr s =
     (case currentMessageIdForReact s of
        None \<Rightarrow> s
      | Some messageId \<Rightarrow>
          if messageId \<noteq> [] then
            closeModal (toggleFlag css outcome messageId (''pending_react:'' @ emojiStr) s)
          else s)"

text \<open>
  The states of a session.  When the page has loaded, the global is \<^verbatim>\<open>null\<close> and the
  modal is hidden (by the page's stylesheet).  From there the user opens the picker on a
  message, closes it (the close button, or a click on the backdrop), picks an emoji (a
  chip, or free text through \<^verbatim>\<open>customReact\<close>), sets a flag, or runs a search or a context
  view, which replace message elements.  The list and the subtitle of the modal may also
  be written on their own, when the answer to an earlier \<^verbatim>\<open>promptReact\<close> arrives late.
\<close>

definition page_loaded :: "ui_state \<Rightarrow> bool" where
  "page_loaded s = (currentMessageIdForReact s = None \<and> modal_display s = ''none'')"

inductive reachable :: "ui_state \<Rightarrow> bool" where
  loaded: "page_loaded s \<Longrightarrow> reachable s"
| prompt: "reachable s \<Longrightarrow> reachable (promptReact resp messageId s)"
| close: "reachable s \<Longrightarrow> reachable (closeModal s)"
| select: "reachable s \<Longrightarrow> reachable (selectEmoji css outcome emojiStr s)"
| toggle: "reachable s \<Longrightarrow> reachable (toggleFlag css outcome messageId color s)"
| render: "reachable s \<Longrightarrow> reachable (s\<lparr>document := d\<rparr>)"
| picker: "reachable s \<Longrightarrow> reachable (s\<lparr>emoji_list := l, modal_subtitle := t\<rparr>)"

text \<open>The page has one reaction modal; it is open when its \<^verbatim>\<open>display\<close> is not \<^verbatim>\<open>none\<close>.\<close>

definition modal_visible :: "ui_state \<Rightarrow> bool" where
  "modal_visible s = (modal_display s \<noteq> ''none'')"

definition open_modals :: "ui_state \<Rightarrow> nat" where
  "open_modals s = (if modal_visible s then 1 else 0)"

section \<open>Stats view\<close>

text \<open>
  JavaScript numbers are IEEE 754 double precision values.  \<open>Num r\<close> is the finite double
  whose value is the rational \<open>r\<close>; both zeros are \<open>Num 0\<close> (they print alike, and the
  script divides by no zero of its own making: its divisor is a count received);
  \<^verbatim>\<open>NaN\<close> and the two infinities stand for themselves.
\<close>

datatype jsnum = Num rat | NaN | PosInf | NegInf

text \<open>
  Rounding a rational to the nearest double, ties to the even significand.  For a
  positive \<open>r\<close> with \<open>2 ^ e \<le> r < 2 ^ (e + 1)\<close> the doubles near \<open>r\<close> are the multiples of
  \<open>2 ^ (e - 52)\<close>, and of \<open>2 ^ -1074\<close> below the normal range; a result of \<open>2 ^ 1024\<close> or
  more is infinity.
\<close>

definition half_even :: "rat \<Rightarrow> int" where
  "half_even x =
     (let f = \<lfloor>x\<rfloor>; d = x - of_int f
      in if d < 1 / 2 then f else if 1 / 2 < d then f + 1 else if even f then f else f + 1)"

definition pow2 :: "int \<Rightarrow> rat" where
  "pow2 k = (if 0 \<le> k then 2 ^ nat k else 1 / 2 ^ nat (- k))"

definition exponent :: "rat \<Rightarrow> int" where
  "exponent r =
     (if 1 \<le> r then bitlen \<lfloor>r\<rfloor> - 1
      else (let k = bitlen \<lfloor>1 / r\<rfloor> - 1 in if r * pow2 k = 1 then - k else - k - 1))"

definition round_pos :: "rat \<Rightarrow> jsnum" where
  "round_pos r =
     (let q = max (exponent r - 52) (- 1074);
          v = of_int (half_even (r / pow2 q)) * pow2 q
      in if 2 ^ 1024 \<le> v then PosInf else Num v)"

fun js_neg :: "jsnum \<Rightarrow> jsnum" where
  "js_neg (Num a) = Num (- a)"
| "js_neg PosInf = NegInf"
| "js_neg NegInf = PosInf"
| "js_neg NaN = NaN"

definition round_double :: "rat \<Rightarrow> jsnum" where
  "round_double r =
     (if r = 0 then Num 0 else if 0 < r then round_pos r else js_neg (round_pos (- r)))"

text \<open>
  The number that \<^verbatim>\<open>response.json()\<close> gives for an integer of the answer: the nearest
  double.
\<close>

definition to_number :: "int \<Rightarrow> jsnum" where
  "to_number c = round_double (of_int c)"

text \<open>\<^verbatim>\<open>x / y\<close> and \<^verbatim>\<open>x * 100\<close> on doubles: the exact result, rounded.\<close>

fun js_div :: "jsnum \<Rightarrow> jsnum \<Rightarrow> jsnum" where
  "js_div (Num a) (Num b) =
     (if b \<noteq> 0 then round_double (a / b)
      else if a = 0 then NaN else if 0 < a then PosInf else NegInf)"
| "js_div (Num a) PosInf = Num 0"
| "js_div (Num a) NegInf = Num 0"
| "js_div PosInf (Num b) = (if 0 \<le> b then PosInf else NegInf)"
| "js_div NegInf (Num b) = (if 0 \<le> b then NegInf else PosInf)"
| "js_div x y = NaN"

fun times100 :: "jsnum \<Rightarrow> jsnum" where
  "times100 (Num a) = round_double (a * 100)"
| "times100 x = x"

text \<open>\<^verbatim>\<open>x < y\<close> on numbers: false when either is \<^verbatim>\<open>NaN\<close>.\<close>

fun js_less :: "jsnum \<Rightarrow> jsnum \<Rightarrow> bool" where
  "js_less (Num a) (Num b) = (a < b)"
| "js_less (Num a) PosInf = True"
| "js_less NegInf (Num b) = True"
| "js_less NegInf PosInf = True"
| "js_less x y = False"

text \<open>
  \<^verbatim>\<open>Math.max\<close>: it starts from \<^verbatim>\<open>-Infinity\<close>, answers \<^verbatim>\<open>NaN\<close> when an argument is
  \<^verbatim>\<open>NaN\<close>, and keeps the greatest argument otherwise.
\<close>

fun max_from :: "jsnum \<Rightarrow> jsnum list \<Rightarrow> jsnum" where
  "max_from highest [] = highest"
| "max_from highest (x # xs) =
     (if x = NaN then NaN else max_from (if js_less highest x then x else highest) xs)"

definition Math_max :: "jsnum list \<Rightarrow> jsnum" where
  "Math_max xs = max_from NegInf xs"

text \<open>
  An entry of the answer of \<^verbatim>\<open>/stats/word-frequency\<close>; the count is an integer (so no
  negative zero and no fraction is received).
\<close>

record stat =
  word :: string
  count :: int

datatype stats_response = StatsRejected | StatsList "stat list"

record freq_item =
  item_word :: string
  bar_width :: jsnum
  item_count :: jsnum

datatype container = Markup string | FreqItems "freq_item list"

text \<open>
  \<^verbatim>\<open>fetchStats\<close> (script.js, lines 234-261), from the answer of the backend on: the final
  content of the frequency table, and the divisions carried out, each as the pair of
  its operands.  \<open>maxCount\<close> is the local of that name and \<open>freq_bar\<close> the callback of
  \<^verbatim>\<open>stats.map\<close>; its \<open>bar_width\<close> is the number printed before the \<^verbatim>\<open>%\<close> sign and its
  \<open>item_count\<close> the number printed as the count.

  \<^verbatim>\<open>Math.max(...xs)\<close> passes one argument per entry.  An engine takes only so many
  arguments in one call; that number is the parameter \<open>arg_limit\<close>, and a longer list
  makes the call throw a \<^verbatim>\<open>RangeError\<close>, which the \<^verbatim>\<open>catch\<close> block turns into the error
  placeholder.
\<close>

definition maxCount :: "stat list \<Rightarrow> jsnum" where
  "maxCount stats = Math_max (map (\<lambda>s. to_number (count s)) stats)"

definition freq_bar :: "jsnum \<Rightarrow> stat \<Rightarrow> freq_item" where
  "freq_bar m s =
     \<lparr>item_word = escapeHtml (word s),
      bar_width = times100 (js_div (to_number (count s)) m),
      item_count = to_number (count s)\<rparr>"

definition fetchStats :: "nat \<Rightarrow> stats_response \<Rightarrow> container \<times> (jsnum \<times> jsnum) list" where
  \<open>fetchStats arg_limit resp =
     (case resp of
        StatsRejected \<Rightarrow>
          (Markup ''<p class="placeholder" style="color: #ff4747">Error fetching stats.</p>'', [])
      | StatsList stats \<Rightarrow>
          if length stats = 0 then
            (Markup ''<p class="placeholder">Not enough data to generate stats.</p>'', [])
          else if arg_limit < length stats then
            (Markup ''<p class="placeholder" style="color: #ff4747">Error fetching stats.</p>'', [])
          else
            (FreqItems (map (freq_bar (maxCount stats)) stats),
             map (\<lambda>s. (to_number (count s), maxCount stats)) stats))\<close>

section \<open>Vocabulary of the statements\<close>

text \<open>
  A class token that \<^verbatim>\<open>classList.add\<close> accepts, and the flag values for which the
  callback of \<^verbatim>\<open>toggleFlag\<close> does not throw: \<^verbatim>\<open>none\<close>, for which nothing is added, and
  every value whose state name is an accepted token.  The values the page sends
  (\<^verbatim>\<open>green\<close>, \<^verbatim>\<open>red\<close>, \<^verbatim>\<open>none\<close>, \<^verbatim>\<open>pending_react:<emoji>\<close>) are all of this kind.
\<close>

definition valid_class_token :: "string \<Rightarrow> bool" where
  "valid_class_token t = (t \<noteq> [] \<and> set t \<inter> ascii_ws = {})"

definition flag_accepted :: "string \<Rightarrow> bool" where
  "flag_accepted color = (color = ''none'' \<or> valid_class_token (flag_class color))"

text \<open>
  The state classes an element carries after a patch with the given flag value: the
  class of the value, when it is one of the three state classes.
\<close>

definition expected_classes :: "string \<Rightarrow> string list" where
  "expected_classes color =
     (if color \<noteq> ''none'' \<and> flag_class color \<in> set state_classes then [flag_class color] else [])"

text \<open>An integer that a double holds exactly.\<close>

definition safe_integer :: "int \<Rightarrow> bool" where
  "safe_integer c = (\<bar>c\<bar> \<le> 2 ^ 53)"

section \<open>Example data\<close>

text \<open>
  A page that shows message 42 twice (in the search list, and as the target of the
  context list) and message 7 once, in a browser whose selector parser refuses every
  text that is not the plain attribute selector and whose engine takes 65536 arguments in
  a call.
\<close>

definition example_message :: message where
  "example_message =
     \<lparr>msg_id = ''42'', author_name = ''Ann'', content = ''a < b'',
      timestamp = ''2024-01-01T00:00:00Z'', attachment_urls = [],
      flag = Some ''pending_react:ok''\<rparr>"

definition other_message :: message where
  "other_message =
     \<lparr>msg_id = ''7'', author_name = ''Bob'', content = ''hi'',
      timestamp = ''2024-01-01T00:00:01Z'', attachment_urls = [],
      flag = Some ''red''\<rparr>"

definition example_limit :: nat where
  "example_limit = 65536"

definition example_css :: selector_engine where
  "example_css sel els = Inl SyntaxError"

definition example_state :: ui_state where
  "example_state =
     \<lparr>document = [renderMessage example_message False, renderMessage other_message False,
             renderMessage example_message True],
      console = [], requests = [], modal_display = ''none'',
      currentMessageIdForReact = None, emoji_list = PickerPlaceholder [],
      modal_subtitle = []\<rparr>"

section \<open>Properties of the utilities and the codec\<close>

lemma split_not_Nil: "split c s \<noteq> []"
  by (induction s) (auto split: list.splits)

lemma split_prefix:
  "c \<notin> set p \<Longrightarrow> split c (p @ c # rest) = p # split c rest"
  by (induction p) auto

lemma split_no_sep: "c \<notin> set p \<Longrightarrow> split c p = [p]"
  by (induction p) auto

lemma replaceAll_Nil: "replaceAll c r [] = []"
  by (simp add: replaceAll_def)

lemma replaceAll_Cons:
  "replaceAll c r (x # xs) = (if x = c then r else [x]) @ replaceAll c r xs"
  by (simp add: replaceAll_def)

lemma replaceAll_append:
  "replaceAll c r (xs @ ys) = replaceAll c r xs @ replaceAll c r ys"
  by (simp add: replaceAll_def)

lemma escapeHtml_Nil: "escapeHtml [] = []"
  by (simp add: escapeHtml_def replaceAll_Nil)

lemma escapeHtml_Cons: "escapeHtml (c # s) = entity_of c @ escapeHtml s"
  by (simp add: escapeHtml_def entity_of_def replaceAll_Cons replaceAll_append replaceAll_Nil)

lemma escapeHtml_entities: "escapeHtml s = concat (map entity_of s)"
  by (induction s) (simp_all add: escapeHtml_Nil escapeHtml_Cons)

lemma entity_of_no_raw: "set (entity_of c) \<inter> raw_specials = {}"
  by (simp add: entity_of_def raw_specials_def)

lemma escapeHtml_no_raw: "set (escapeHtml s) \<inter> raw_specials = {}"
  by (induction s) (simp_all add: escapeHtml_Nil escapeHtml_Cons entity_of_no_raw Int_Un_distrib2)

lemma entities_only_escapeHtml: "entities_only (escapeHtml s)"
proof (induction s)
  case Nil
  show ?case by (simp add: escapeHtml_Nil)
next
  case (Cons c s)
  then show ?case
    by (simp add: escapeHtml_Cons entity_of_def)
qed

lemma textContent_escapeHtml: "textContent (escapeHtml s) = s"
proof (induction s)
  case Nil
  show ?case by (simp add: escapeHtml_Nil)
next
  case (Cons c s)
  then show ?case
    by (simp add: escapeHtml_Cons entity_of_def)
qed

lemma flag_class_pending: "flag_class (''pending_react:'' @ x) = ''flag-pending_react''"
  using split_prefix [of "CHR '':''" "''pending_react''" x]
  by (simp add: flag_class_def at_index_def)

lemma flag_class_marker: "flag_class ''pending_react'' = ''flag-pending_react''"
  by (simp add: flag_class_def at_index_def)

section \<open>The claims\<close>

text \<open>
  C1.  The claim: decoding \<^verbatim>\<open>pending_react:<token>\<close> takes everything after the first
  colon as the emoji, so \<^verbatim>\<open>pending_react:a:b\<close> decodes to the emoji \<^verbatim>\<open>a:b\<close>.  The code
  reads the second piece of \<^verbatim>\<open>flag.split(':')\<close>: on \<^verbatim>\<open>pending_react:a:b\<close> the emoji is
  \<^verbatim>\<open>a\<close>, and the icon shows \<^verbatim>\<open>a\<close>; the rest of the token is dropped.
\<close>

theorem getFlagIcon_drops_after_second_colon:
  \<open>startsWith ''pending_react:a:b'' ''pending_react:'' \<and>
   pending_emoji ''pending_react:a:b'' = ''a'' \<and>
   pending_emoji ''pending_react:a:b'' \<noteq> ''a:b'' \<and>
   getFlagIcon (Some ''pending_react:a:b'') =
     ''<span title="Pending reaction: a">'' @ HOURGLASS @ ''a</span>''\<close>
  by (simp add: getFlagIcon_def pending_emoji_def at_index_def startsWith_def)

text \<open>
  C4.  For every string, \<^verbatim>\<open>escapeHtml\<close> replaces exactly the five characters
  \<^verbatim>\<open>& < > " '\<close> by their entities, each character once (the ampersand of an entity
  already produced is not escaped again).  The result holds none of \<^verbatim>\<open>< > " '\<close>, each of
  its ampersands starts one of the five entities, and read back as text it is the input.
\<close>

theorem escapeHtml_escapes_five_and_round_trips:
  "escapeHtml s = concat (map entity_of s) \<and>
   set (escapeHtml s) \<inter> raw_specials = {} \<and>
   entities_only (escapeHtml s) \<and>
   textContent (escapeHtml s) = s"
  by (simp add: escapeHtml_no_raw entities_only_escapeHtml textContent_escapeHtml
      escapeHtml_entities [symmetric])

lemma set_icon_fields:
  "el_id (set_icon c el) = el_id el" "classList (set_icon c el) = classList el"
  "author_html (set_icon c el) = author_html el" "content_html (set_icon c el) = content_html el"
  "flag_indicator (set_icon c el) = map_option (\<lambda>old. getFlagIcon (Some c)) (flag_indicator el)"
  by (simp_all add: set_icon_def split: option.splits)

lemma patch_element_id: "el_id (fst (patch_element color el)) = el_id el"
  by (simp add: patch_element_def Let_def set_icon_fields split: sum.splits)

lemma patch_element_text:
  "author_html (fst (patch_element color el)) = author_html el \<and>
   content_html (fst (patch_element color el)) = content_html el"
  by (simp add: patch_element_def Let_def set_icon_fields split: sum.splits)

lemma patch_element_ok:
  "flag_accepted color \<Longrightarrow> snd (patch_element color el) = None"
  by (auto simp: flag_accepted_def valid_class_token_def patch_element_def Let_def classList_add_def)

lemma patch_element_icon:
  "flag_accepted color \<Longrightarrow>
   flag_indicator (fst (patch_element color el)) =
     map_option (\<lambda>old. getFlagIcon (Some color)) (flag_indicator el)"
  by (auto simp: flag_accepted_def valid_class_token_def patch_element_def Let_def classList_add_def
      set_icon_fields)

lemma filter_state_removed:
  "filter (\<lambda>c. c \<in> set ts) (classList_remove ts cl) = []"
  by (induction cl) (auto simp: classList_remove_def)

lemma classList_remove_set: "set (classList_remove ts cl) = set cl - set ts"
  by (auto simp: classList_remove_def)

lemma patch_element_classes:
  "flag_accepted color \<Longrightarrow> structural_classes (fst (patch_element color el)) = expected_classes color"
  by (auto simp: flag_accepted_def valid_class_token_def patch_element_def Let_def classList_add_def
      set_icon_fields structural_classes_def expected_classes_def insert_token_def
      filter_state_removed classList_remove_set)

lemma patch_element_other_classes:
  "flag_accepted color \<Longrightarrow>
   filter (\<lambda>c. c \<notin> set state_classes \<and> c \<noteq> flag_class color)
     (classList (fst (patch_element color el))) =
   filter (\<lambda>c. c \<notin> set state_classes \<and> c \<noteq> flag_class color) (classList el)"
  by (auto simp: flag_accepted_def valid_class_token_def patch_element_def Let_def
      classList_add_def set_icon_fields insert_token_def classList_remove_def intro: filter_cong)

lemma forEach_patch_ok:
  "flag_accepted color \<Longrightarrow>
   forEach_patch color (map P els) els =
     (map (\<lambda>el. if P el then fst (patch_element color el) else el) els, None)"
proof (induction els)
  case Nil
  show ?case by simp
next
  case (Cons el els)
  from Cons.prems have "snd (patch_element color el) = None"
    by (rule patch_element_ok)
  then obtain el' where "patch_element color el = (el', None)"
    by (cases "patch_element color el") auto
  with Cons show ?case by simp
qed

lemma toggleFlag_ok:
  "selector_safe m \<Longrightarrow> flag_accepted color \<Longrightarrow>
   toggleFlag css (Responded True) m color s =
     s\<lparr>requests := requests s @ [flag_request m color],
       document := map (\<lambda>el. if el_id el = ''msg-'' @ m then fst (patch_element color el) else el) (document s)\<rparr>"
  by (simp add: toggleFlag_def toggleFlag_try_def querySelectorAll_def Let_def forEach_patch_ok)

text \<open>
  C2.  After a flag mutation that the backend accepts, every element whose identifier is
  that of the message (however many there are) is patched in place: it keeps its
  identifier, its text and its other classes, its state classes become those of the flag
  value and its indicator shows the icon of the flag value, the same for all of them.  Every other
  element is as before, the document has as many elements as before, exactly one request
  was sent and nothing was logged.
\<close>

theorem toggleFlag_patches_every_matching_node:
  assumes "selector_safe m" and "flag_accepted color"
  shows "length (document (toggleFlag css (Responded True) m color s)) = length (document s) \<and>
    (\<forall>i < length (document s).
       if el_id (document s ! i) = ''msg-'' @ m then
         el_id (document (toggleFlag css (Responded True) m color s) ! i) = ''msg-'' @ m \<and>
         structural_classes (document (toggleFlag css (Responded True) m color s) ! i) = expected_classes color \<and>
         filter (\<lambda>c. c \<notin> set state_classes \<and> c \<noteq> flag_class color)
             (classList (document (toggleFlag css (Responded True) m color s) ! i)) =
           filter (\<lambda>c. c \<notin> set state_classes \<and> c \<noteq> flag_class color)
             (classList (document s ! i)) \<and>
         flag_indicator (document (toggleFlag css (Responded True) m color s) ! i) =
           map_option (\<lambda>old. getFlagIcon (Some color)) (flag_indicator (document s ! i)) \<and>
         author_html (document (toggleFlag css (Responded True) m color s) ! i) = author_html (document s ! i) \<and>
         content_html (document (toggleFlag css (Responded True) m color s) ! i) = content_html (document s ! i)
       else document (toggleFlag css (Responded True) m color s) ! i = document s ! i) \<and>
    requests (toggleFlag css (Responded True) m color s) = requests s @ [flag_request m color] \<and>
    console (toggleFlag css (Responded True) m color s) = console s"
  using assms
  by (simp add: toggleFlag_ok patch_element_id patch_element_classes patch_element_icon
      patch_element_text patch_element_other_classes)

text \<open>
  C3, amended.  When the request fails, the document is left as it was and nothing is
  thrown to the caller: after a rejected request the state differs only by the request
  sent and one \<^verbatim>\<open>console.error\<close> entry; after a response that is not a success it
  differs only by the request sent, and nothing is logged.
\<close>

theorem toggleFlag_failure_leaves_document:
  "toggleFlag css Rejected m color s =
     s\<lparr>requests := requests s @ [flag_request m color],
       console := console s @ [(''Failed to update flag:'', FetchRejected)]\<rparr> \<and>
   toggleFlag css (Responded False) m color s =
     s\<lparr>requests := requests s @ [flag_request m color]\<rparr> \<and>
   document (toggleFlag css Rejected m color s) = document s \<and>
   document (toggleFlag css (Responded False) m color s) = document s"
  by (simp add: toggleFlag_def toggleFlag_try_def Let_def)

lemma patch_element_twice:
  "patch_element v (fst (patch_element v el)) = patch_element v el"
  by (auto simp: patch_element_def Let_def classList_add_def set_icon_def insert_token_def
      classList_remove_def state_classes_def split: option.splits)

lemma forEach_patch_twice:
  "forEach_patch v (map (\<lambda>el. el_id el = sel) (fst (forEach_patch v (map (\<lambda>el. el_id el = sel) els) els)))
     (fst (forEach_patch v (map (\<lambda>el. el_id el = sel) els) els)) =
   forEach_patch v (map (\<lambda>el. el_id el = sel) els) els"
proof (induction els)
  case Nil
  show ?case by simp
next
  case (Cons el els)
  obtain els' q where f: "forEach_patch v (map (\<lambda>el. el_id el = sel) els) els = (els', q)"
    by (cases "forEach_patch v (map (\<lambda>el. el_id el = sel) els) els") auto
  show ?case
  proof (cases "el_id el = sel")
    case False
    with Cons f show ?thesis by simp
  next
    case True
    obtain el' r where p: "patch_element v el = (el', r)"
      by (cases "patch_element v el") auto
    have id: "el_id el' = sel"
      using patch_element_id [of v el] p True by simp
    have again: "patch_element v el' = (el', r)"
      using patch_element_twice [of v el] p by simp
    show ?thesis
    proof (cases r)
      case None
      with Cons True p id again f show ?thesis by simp
    next
      case (Some err)
      have "forEach_patch v (map (\<lambda>el. el_id el = sel) (el' # els)) (el' # els) = (el' # els, Some err)"
        using id again Some by simp
      with True p Some show ?thesis by simp
    qed
  qed
qed

lemma toggleFlag_dom_twice:
  assumes "selector_safe m"
  shows "document (toggleFlag css (Responded True) m v (toggleFlag css (Responded True) m v s)) =
    document (toggleFlag css (Responded True) m v s)"
proof -
  let ?marks = "\<lambda>els. map (\<lambda>el. el_id el = ''msg-'' @ m) els"
  obtain d r where f: "forEach_patch v (?marks (document s)) (document s) = (d, r)"
    by (cases "forEach_patch v (?marks (document s)) (document s)") auto
  have g: "forEach_patch v (?marks d) d = (d, r)"
    using forEach_patch_twice [of v "''msg-'' @ m" "document s"] f by simp
  show ?thesis
    using assms f g
    by (cases r) (simp_all add: toggleFlag_def toggleFlag_try_def querySelectorAll_def Let_def)
qed

lemma split_hd: "hd (split c s) = takeWhile (\<lambda>x. x \<noteq> c) s"
  by (induction s) (auto simp: split_not_Nil split: list.splits)

lemma flag_class_takeWhile: "flag_class v = ''flag-'' @ takeWhile (\<lambda>c. c \<noteq> CHR '':'') v"
  using split_not_Nil [of "CHR '':''" v] split_hd [of "CHR '':''" v]
  by (simp add: flag_class_def at_index_def hd_conv_nth)

lemma pending_emoji_takeWhile:
  "pending_emoji (''pending_react:'' @ x) = takeWhile (\<lambda>c. c \<noteq> CHR '':'') x"
proof -
  have "split CHR '':'' (''pending_react:'' @ x) = ''pending_react'' # split CHR '':'' x"
    using split_prefix [of "CHR '':''" "''pending_react''" x] by simp
  then show ?thesis
    using split_not_Nil [of "CHR '':''" x] split_hd [of "CHR '':''" x]
    by (simp add: pending_emoji_def at_index_def hd_conv_nth)
qed

lemma getFlagIcon_pending:
  \<open>getFlagIcon (Some (''pending_react:'' @ x)) =
     ''<span title="Pending reaction: '' @ takeWhile (\<lambda>c. c \<noteq> CHR '':'') x @ ''">'' @
     HOURGLASS @ takeWhile (\<lambda>c. c \<noteq> CHR '':'') x @ ''</span>''\<close>
proof -
  have "startsWith (''pending_react:'' @ x) ''pending_react:''"
    by (simp add: startsWith_def)
  moreover have "''pending_react:'' @ x \<noteq> ''green''" "''pending_react:'' @ x \<noteq> ''red''"
    "''pending_react:'' @ x \<noteq> []"
    by simp_all
  ultimately show ?thesis
    by (simp add: getFlagIcon_def Let_def pending_emoji_takeWhile del: append.simps)
qed

lemma patch_element_adds_class:
  "flag_accepted color \<Longrightarrow> color \<noteq> ''none'' \<Longrightarrow>
   flag_class color \<in> set (classList (fst (patch_element color el)))"
  by (auto simp: flag_accepted_def valid_class_token_def patch_element_def Let_def
      classList_add_def set_icon_fields insert_token_def)

lemma flag_accepted_pending: "flag_accepted (''pending_react:'' @ e)"
  by (simp only: flag_accepted_def valid_class_token_def flag_class_pending) (simp add: ascii_ws_def)

lemma flag_accepted_marker: "flag_accepted ''pending_react''"
  by (simp only: flag_accepted_def valid_class_token_def flag_class_marker) (simp add: ascii_ws_def)

lemma expected_classes_pending:
  "expected_classes (''pending_react:'' @ e) = [''flag-pending_react'']"
  "expected_classes ''pending_react'' = [''flag-pending_react'']"
  by (simp_all only: expected_classes_def flag_class_pending flag_class_marker)
     (simp_all add: state_classes_def)

text \<open>
  C7.  The state name of a flag value is \<^verbatim>\<open>flag-\<close> followed by the value up to its first
  colon: any reaction payload is cut off, so \<^verbatim>\<open>pending_react:<x>\<close>, for every \<open>x\<close>, and the
  plain marker \<^verbatim>\<open>pending_react\<close> both give \<^verbatim>\<open>flag-pending_react\<close>, and a patch with either
  leaves an element with exactly that state class.  The icon of \<^verbatim>\<open>green\<close>, \<^verbatim>\<open>red\<close> and
  \<^verbatim>\<open>none\<close> is the green, red and white circle, that of \<^verbatim>\<open>pending_react:<x>\<close> the hourglass
  with the emoji.  A patch with an accepted value \<open>v\<close> sets this class and this icon, and
  the derivation is stable: patching an element twice with \<open>v\<close> gives what patching once
  gives, and so does toggling the document twice.
\<close>

theorem flag_class_strips_payload_and_patch_stable:
  \<open>flag_class v = ''flag-'' @ takeWhile (\<lambda>c. c \<noteq> CHR '':'') v \<and>
   flag_class (''pending_react:'' @ x) = ''flag-pending_react'' \<and>
   flag_class ''pending_react'' = ''flag-pending_react'' \<and>
   flag_class ''green'' = ''flag-green'' \<and>
   flag_class ''red'' = ''flag-red'' \<and>
   structural_classes (fst (patch_element (''pending_react:'' @ x) el)) = [''flag-pending_react''] \<and>
   structural_classes (fst (patch_element ''pending_react'' el)) = [''flag-pending_react''] \<and>
   getFlagIcon (Some ''green'') = [CHR 0xF0, CHR 0x9F, CHR 0x9F, CHR 0xA2] \<and>
   getFlagIcon (Some ''red'') = [CHR 0xF0, CHR 0x9F, CHR 0x94, CHR 0xB4] \<and>
   getFlagIcon (Some ''none'') = [CHR 0xE2, CHR 0x9A, CHR 0xAA] \<and>
   getFlagIcon (Some (''pending_react:'' @ x)) =
     ''<span title="Pending reaction: '' @ takeWhile (\<lambda>c. c \<noteq> CHR '':'') x @ ''">'' @
     [CHR 0xE2, CHR 0x8F, CHR 0xB3] @ takeWhile (\<lambda>c. c \<noteq> CHR '':'') x @ ''</span>'' \<and>
   (flag_accepted v \<longrightarrow>
      snd (patch_element v el) = None \<and>
      structural_classes (fst (patch_element v el)) = expected_classes v \<and>
      (v \<noteq> ''none'' \<longrightarrow> flag_class v \<in> set (classList (fst (patch_element v el)))) \<and>
      flag_indicator (fst (patch_element v el)) =
        map_option (\<lambda>old. getFlagIcon (Some v)) (flag_indicator el)) \<and>
   patch_element v (fst (patch_element v el)) = patch_element v el \<and>
   (selector_safe m \<longrightarrow>
      document (toggleFlag css (Responded True) m v (toggleFlag css (Responded True) m v s)) =
      document (toggleFlag css (Responded True) m v s))\<close>
proof -
  have c1: "flag_class v = ''flag-'' @ takeWhile (\<lambda>c. c \<noteq> CHR '':'') v"
    by (rule flag_class_takeWhile)
  have c2: "flag_class ''green'' = ''flag-green''" "flag_class ''red'' = ''flag-red''"
    by (simp_all add: flag_class_takeWhile)
  have c3: "structural_classes (fst (patch_element (''pending_react:'' @ x) el)) = [''flag-pending_react'']"
    "structural_classes (fst (patch_element ''pending_react'' el)) = [''flag-pending_react'']"
    using patch_element_classes [OF flag_accepted_pending, of x el]
      patch_element_classes [OF flag_accepted_marker, of el]
    by (simp_all only: expected_classes_pending)
  have c4: "getFlagIcon (Some ''green'') = [CHR 0xF0, CHR 0x9F, CHR 0x9F, CHR 0xA2]"
    "getFlagIcon (Some ''red'') = [CHR 0xF0, CHR 0x9F, CHR 0x94, CHR 0xB4]"
    "getFlagIcon (Some ''none'') = [CHR 0xE2, CHR 0x9A, CHR 0xAA]"
    by (simp_all add: getFlagIcon_def GREEN_CIRCLE_def RED_CIRCLE_def WHITE_CIRCLE_def
        startsWith_def)
  have c5: \<open>getFlagIcon (Some (''pending_react:'' @ x)) =
     ''<span title="Pending reaction: '' @ takeWhile (\<lambda>c. c \<noteq> CHR '':'') x @ ''">'' @
     [CHR 0xE2, CHR 0x8F, CHR 0xB3] @ takeWhile (\<lambda>c. c \<noteq> CHR '':'') x @ ''</span>''\<close>
    using getFlagIcon_pending [of x] by (simp only: HOURGLASS_def)
  have c6: "flag_accepted v \<longrightarrow>
      snd (patch_element v el) = None \<and>
      structural_classes (fst (patch_element v el)) = expected_classes v \<and>
      (v \<noteq> ''none'' \<longrightarrow> flag_class v \<in> set (classList (fst (patch_element v el)))) \<and>
      flag_indicator (fst (patch_element v el)) =
        map_option (\<lambda>old. getFlagIcon (Some v)) (flag_indicator el)"
    by (simp add: patch_element_ok patch_element_classes patch_element_adds_class
        patch_element_icon)
  have c7: "patch_element v (fst (patch_element v el)) = patch_element v el"
    by (rule patch_element_twice)
  have c8: "selector_safe m \<longrightarrow>
      document (toggleFlag css (Responded True) m v (toggleFlag css (Responded True) m v s)) =
      document (toggleFlag css (Responded True) m v s)"
    by (simp add: toggleFlag_dom_twice)
  from c1 flag_class_pending [of x] flag_class_marker c2 c3 c4 c5 c6 c7 c8 show ?thesis
    by (intro conjI)
qed

text \<open>
  The pending message of the example page, patched with \<^verbatim>\<open>pending_react:ok\<close>, and the
  example page toggled twice.
\<close>

theorem flag_class_strips_payload_and_patch_stable_witness:
  "flag_accepted ''pending_react:ok'' \<and> selector_safe ''42'' \<and> ''pending_react:ok'' \<noteq> ''none'' \<and>
   snd (patch_element ''pending_react:ok'' (renderMessage example_message False)) = None \<and>
   structural_classes (fst (patch_element ''pending_react:ok'' (renderMessage example_message False))) =
     [''flag-pending_react''] \<and>
   ''flag-pending_react'' \<in>
     set (classList (fst (patch_element ''pending_react:ok'' (renderMessage example_message False)))) \<and>
   flag_indicator (fst (patch_element ''pending_react:ok'' (renderMessage example_message False))) =
     Some (getFlagIcon (Some ''pending_react:ok'')) \<and>
   document (toggleFlag example_css (Responded True) ''42'' ''pending_react:ok''
       (toggleFlag example_css (Responded True) ''42'' ''pending_react:ok'' example_state)) =
     document (toggleFlag example_css (Responded True) ''42'' ''pending_react:ok'' example_state)"
proof -
  let ?el = "renderMessage example_message False"
  have acc: "flag_accepted ''pending_react:ok''"
    using flag_accepted_pending [of "''ok''"] by simp
  have safe: "selector_safe ''42''"
    by (simp add: selector_safe_def)
  have ne: "''pending_react:ok'' \<noteq> ''none''"
    by simp
  have cls: "flag_class ''pending_react:ok'' = ''flag-pending_react''"
    using flag_class_pending [of "''ok''"] by simp
  have ind: "flag_indicator ?el = Some (getFlagIcon (flag example_message))"
    by (simp add: renderMessage_def)
  note t = flag_class_strips_payload_and_patch_stable
    [where v = "''pending_react:ok''" and x = "''ok''" and el = ?el and m = "''42''"
       and css = example_css and s = example_state]
  from t acc have p: "snd (patch_element ''pending_react:ok'' ?el) = None \<and>
      structural_classes (fst (patch_element ''pending_react:ok'' ?el)) =
        expected_classes ''pending_react:ok'' \<and>
      (''pending_react:ok'' \<noteq> ''none'' \<longrightarrow>
         flag_class ''pending_react:ok'' \<in> set (classList (fst (patch_element ''pending_react:ok'' ?el)))) \<and>
      flag_indicator (fst (patch_element ''pending_react:ok'' ?el)) =
        map_option (\<lambda>old. getFlagIcon (Some ''pending_react:ok'')) (flag_indicator ?el)"
    by blast
  from t safe have d: "document (toggleFlag example_css (Responded True) ''42'' ''pending_react:ok''
       (toggleFlag example_css (Responded True) ''42'' ''pending_react:ok'' example_state)) =
     document (toggleFlag example_css (Responded True) ''42'' ''pending_react:ok'' example_state)"
    by blast
  have e: "expected_classes ''pending_react:ok'' = [''flag-pending_react'']"
    using expected_classes_pending(1) [of "''ok''"] by simp
  from p ne have p1: "snd (patch_element ''pending_react:ok'' ?el) = None"
    and p2: "structural_classes (fst (patch_element ''pending_react:ok'' ?el)) = [''flag-pending_react'']"
    and p3: "''flag-pending_react'' \<in> set (classList (fst (patch_element ''pending_react:ok'' ?el)))"
    and p4: "flag_indicator (fst (patch_element ''pending_react:ok'' ?el)) =
      Some (getFlagIcon (Some ''pending_react:ok''))"
    by (simp_all only: e cls ind option.map simp_thms)
  from acc safe ne p1 p2 p3 p4 d show ?thesis
    by (intro conjI)
qed

lemma toggleFlag_modal:
  "currentMessageIdForReact (toggleFlag css outcome m c s) = currentMessageIdForReact s \<and>
   modal_display (toggleFlag css outcome m c s) = modal_display s"
  by (auto simp: toggleFlag_def toggleFlag_try_def Let_def
      split: fetch_outcome.splits prod.splits option.splits sum.splits)

lemma toggleFlag_requests:
  "requests (toggleFlag css outcome m c s) = requests s @ [flag_request m c]"
  by (auto simp: toggleFlag_def toggleFlag_try_def Let_def
      split: fetch_outcome.splits prod.splits option.splits sum.splits)

text \<open>
  C8.  With the modal bound to message \<open>m\<close>, selecting the emoji \<open>e\<close> runs the flag
  mutation for \<open>m\<close> with the value \<^verbatim>\<open>pending_react:\<close> followed by \<open>e\<close>, and then closes
  the modal: that value is the flag of the last request sent, the global is \<^verbatim>\<open>null\<close>
  and the modal is hidden.
\<close>

theorem selectEmoji_sends_pending_react:
  assumes "currentMessageIdForReact s = Some m" and "m \<noteq> []"
  shows "selectEmoji css outcome e s = closeModal (toggleFlag css outcome m (''pending_react:'' @ e) s) \<and>
    requests (selectEmoji css outcome e s) = requests s @ [flag_request m (''pending_react:'' @ e)] \<and>
    req_flag (last (requests (selectEmoji css outcome e s))) = Some (''pending_react:'' @ e) \<and>
    currentMessageIdForReact (selectEmoji css outcome e s) = None \<and>
    \<not> modal_visible (selectEmoji css outcome e s)"
  using assms
  by (simp add: selectEmoji_def closeModal_def toggleFlag_requests modal_visible_def flag_request_def)

lemma promptReact_modal:
  "currentMessageIdForReact (promptReact resp m s) = Some m \<and>
   modal_display (promptReact resp m s) = ''block''"
  by (simp add: promptReact_def Let_def split: reactions_response.splits)

lemma reachable_modal:
  "reachable s \<Longrightarrow>
   (currentMessageIdForReact s = None \<and> modal_display s = ''none'') \<or>
   (currentMessageIdForReact s \<noteq> None \<and> modal_display s = ''block'')"
proof (induction rule: reachable.induct)
  case (loaded s)
  then show ?case by (simp add: page_loaded_def)
next
  case (prompt s resp messageId)
  show ?case by (simp add: promptReact_modal)
next
  case (close s)
  show ?case by (simp add: closeModal_def)
next
  case (select s outcome emojiStr)
  then show ?case
    by (auto simp: selectEmoji_def closeModal_def split: option.splits)
next
  case (toggle s outcome messageId color)
  then show ?case by (simp add: toggleFlag_modal)
next
  case (render s d)
  then show ?case by simp
next
  case (picker s l t)
  then show ?case by simp
qed

text \<open>
  C9.  In every state of a session, at most one modal is open, the global
  \<^verbatim>\<open>currentMessageIdForReact\<close> is set exactly when the modal is visible, and closing the
  modal resets the global to \<^verbatim>\<open>null\<close> and hides the modal.
\<close>

theorem modal_invariant:
  assumes "reachable s"
  shows "open_modals s \<le> 1 \<and>
    (currentMessageIdForReact s \<noteq> None) = modal_visible s \<and>
    currentMessageIdForReact (closeModal s) = None \<and>
    \<not> modal_visible (closeModal s) \<and>
    reachable (closeModal s)"
  using reachable_modal [OF assms] assms
  by (auto simp: open_modals_def modal_visible_def closeModal_def intro: reachable.close [unfolded closeModal_def])

lemma example_dom:
  "document example_state =
    [\<lparr>el_id = ''msg-42'', classList = [''message-item''], author_html = ''Ann'',
      content_html = ''a &lt; b'',
      flag_indicator = Some (getFlagIcon (Some ''pending_react:ok''))\<rparr>,
     \<lparr>el_id = ''msg-7'', classList = [''message-item'', ''flag-red''], author_html = ''Bob'',
      content_html = ''hi'', flag_indicator = Some RED_CIRCLE\<rparr>,
     \<lparr>el_id = ''msg-42'', classList = [''message-item'', ''target-message''],
      author_html = ''Ann'', content_html = ''a &lt; b'',
      flag_indicator = Some (getFlagIcon (Some ''pending_react:ok''))\<rparr>]"
  by (simp add: example_state_def example_message_def other_message_def renderMessage_def
      renderMessage_class_def flagClass_def class_tokens_def insert_token_def ascii_ws_def
      escapeHtml_def replaceAll_def getFlagIcon_def)

text \<open>
  On the example page, setting message 42 to \<^verbatim>\<open>pending_react:ok\<close> patches both of its
  elements alike and leaves message 7 alone.
\<close>

theorem toggleFlag_patches_every_matching_node_witness:
  "selector_safe ''42'' \<and> flag_accepted ''pending_react:ok'' \<and>
   map el_id (document (toggleFlag example_css (Responded True) ''42'' ''pending_react:ok'' example_state)) =
     [''msg-42'', ''msg-7'', ''msg-42''] \<and>
   map structural_classes (document (toggleFlag example_css (Responded True) ''42'' ''pending_react:ok'' example_state)) =
     [[''flag-pending_react''], [''flag-red''], [''flag-pending_react'']] \<and>
   map flag_indicator (document (toggleFlag example_css (Responded True) ''42'' ''pending_react:ok'' example_state)) =
     [Some (getFlagIcon (Some ''pending_react:ok'')), Some RED_CIRCLE,
      Some (getFlagIcon (Some ''pending_react:ok''))] \<and>
   length (requests (toggleFlag example_css (Responded True) ''42'' ''pending_react:ok'' example_state)) = 1"
proof -
  have safe: "selector_safe ''42''"
    by (simp add: selector_safe_def)
  have ok: "flag_accepted ''pending_react:ok''"
    using flag_accepted_pending [of "''ok''"] by simp
  have cls: "expected_classes ''pending_react:ok'' = [''flag-pending_react'']"
    using flag_class_pending [of "''ok''"] by (simp add: expected_classes_def state_classes_def)
  note t = toggleFlag_patches_every_matching_node [OF safe ok, of example_css example_state]
  have len: "length (document (toggleFlag example_css (Responded True) ''42'' ''pending_react:ok'' example_state)) = 3"
    using t by (simp add: example_dom)
  have n0: "(0::nat) < length (document example_state)" and n1: "(1::nat) < length (document example_state)"
    and n2: "(2::nat) < length (document example_state)"
    by (simp_all add: example_dom)
  from t have a: "\<forall>i < length (document example_state).
       if el_id (document example_state ! i) = ''msg-'' @ ''42'' then
         el_id (document (toggleFlag example_css (Responded True) ''42'' ''pending_react:ok'' example_state) ! i) = ''msg-'' @ ''42'' \<and>
         structural_classes (document (toggleFlag example_css (Responded True) ''42'' ''pending_react:ok'' example_state) ! i) = expected_classes ''pending_react:ok'' \<and>
         filter (\<lambda>c. c \<notin> set state_classes \<and> c \<noteq> flag_class ''pending_react:ok'')
             (classList (document (toggleFlag example_css (Responded True) ''42'' ''pending_react:ok'' example_state) ! i)) =
           filter (\<lambda>c. c \<notin> set state_classes \<and> c \<noteq> flag_class ''pending_react:ok'')
             (classList (document example_state ! i)) \<and>
         flag_indicator (document (toggleFlag example_css (Responded True) ''42'' ''pending_react:ok'' example_state) ! i) =
           map_option (\<lambda>old. getFlagIcon (Some ''pending_react:ok'')) (flag_indicator (document example_state ! i)) \<and>
         author_html (document (toggleFlag example_css (Responded True) ''42'' ''pending_react:ok'' example_state) ! i) = author_html (document example_state ! i) \<and>
         content_html (document (toggleFlag example_css (Responded True) ''42'' ''pending_react:ok'' example_state) ! i) = content_html (document example_state ! i)
       else document (toggleFlag example_css (Responded True) ''42'' ''pending_react:ok'' example_state) ! i = document example_state ! i"
    by blast
  obtain x y z where d: "document (toggleFlag example_css (Responded True) ''42'' ''pending_react:ok'' example_state) = [x, y, z]"
    using len by (auto simp: length_Suc_conv numeral_3_eq_3)
  have x: "el_id x = ''msg-42'' \<and> structural_classes x = [''flag-pending_react''] \<and>
      flag_indicator x = Some (getFlagIcon (Some ''pending_react:ok''))"
    using a [rule_format, OF n0] by (simp add: d example_dom cls)
  have y: "el_id y = ''msg-7'' \<and> structural_classes y = [''flag-red''] \<and>
      flag_indicator y = Some RED_CIRCLE"
    using a [rule_format, OF n1] by (simp add: d example_dom structural_classes_def state_classes_def)
  have z: "el_id z = ''msg-42'' \<and> structural_classes z = [''flag-pending_react''] \<and>
      flag_indicator z = Some (getFlagIcon (Some ''pending_react:ok''))"
    using a [rule_format, OF n2] by (simp add: d example_dom cls)
  have r: "length (requests (toggleFlag example_css (Responded True) ''42'' ''pending_react:ok'' example_state)) = 1"
    using t by (simp add: example_state_def)
  show ?thesis
    using safe ok x y z r by (simp add: d)
qed

text \<open>
  C3, as stated, fails: after a response that is not a success nothing is logged.
\<close>

theorem toggleFlag_not_ok_logs_nothing:
  "console (toggleFlag example_css (Responded False) ''42'' ''red'' example_state) = []"
  by (simp add: toggleFlag_def toggleFlag_try_def Let_def example_state_def)

text \<open>
  Opening the picker on message 42 of the example page and selecting \<^verbatim>\<open>ok\<close>.
\<close>

theorem selectEmoji_sends_pending_react_witness:
  "currentMessageIdForReact (promptReact ReactionsRejected ''42'' example_state) = Some ''42'' \<and>
   ''42'' \<noteq> [] \<and>
   map req_flag (requests (selectEmoji example_css (Responded True) ''ok''
       (promptReact ReactionsRejected ''42'' example_state))) = [None, Some ''pending_react:ok''] \<and>
   currentMessageIdForReact (selectEmoji example_css (Responded True) ''ok''
       (promptReact ReactionsRejected ''42'' example_state)) = None \<and>
   \<not> modal_visible (selectEmoji example_css (Responded True) ''ok''
       (promptReact ReactionsRejected ''42'' example_state))"
proof -
  have cur: "currentMessageIdForReact (promptReact ReactionsRejected ''42'' example_state) = Some ''42''"
    by (simp add: promptReact_def Let_def)
  have ne: "''42'' \<noteq> []"
    by simp
  have req: "map req_flag (requests (promptReact ReactionsRejected ''42'' example_state)) = [None]"
    by (simp add: promptReact_def Let_def example_state_def)
  note t = selectEmoji_sends_pending_react [OF cur ne, of example_css "Responded True" "''ok''"]
  from t have r: "requests (selectEmoji example_css (Responded True) ''ok''
        (promptReact ReactionsRejected ''42'' example_state)) =
      requests (promptReact ReactionsRejected ''42'' example_state) @
        [flag_request ''42'' (''pending_react:'' @ ''ok'')]"
    by blast
  from t have c: "currentMessageIdForReact (selectEmoji example_css (Responded True) ''ok''
        (promptReact ReactionsRejected ''42'' example_state)) = None"
    by blast
  from t have v: "\<not> modal_visible (selectEmoji example_css (Responded True) ''ok''
        (promptReact ReactionsRejected ''42'' example_state))"
    by blast
  have m: "map req_flag (requests (selectEmoji example_css (Responded True) ''ok''
       (promptReact ReactionsRejected ''42'' example_state))) = [None, Some ''pending_react:ok'']"
    by (simp add: r req flag_request_def)
  from cur ne m c v show ?thesis
    by (simp only: simp_thms)
qed

text \<open>
  The state after opening the picker on message 42 of the example page.
\<close>

theorem modal_invariant_witness:
  "reachable (promptReact ReactionsRejected ''42'' example_state) \<and>
   open_modals (promptReact ReactionsRejected ''42'' example_state) \<le> 1 \<and>
   currentMessageIdForReact (promptReact ReactionsRejected ''42'' example_state) \<noteq> None \<and>
   modal_visible (promptReact ReactionsRejected ''42'' example_state) \<and>
   currentMessageIdForReact (closeModal (promptReact ReactionsRejected ''42'' example_state)) = None \<and>
   \<not> modal_visible (closeModal (promptReact ReactionsRejected ''42'' example_state))"
proof -
  have "page_loaded example_state"
    by (simp add: page_loaded_def example_state_def)
  then have r: "reachable (promptReact ReactionsRejected ''42'' example_state)"
    by (intro reachable.prompt reachable.loaded)
  have cur: "currentMessageIdForReact (promptReact ReactionsRejected ''42'' example_state) \<noteq> None"
    by (simp add: promptReact_def Let_def)
  show ?thesis
    using modal_invariant [OF r] r cur by simp
qed

lemma renderMessage_classList:
  "flag msg \<noteq> Some ''green'' \<Longrightarrow> flag msg \<noteq> Some ''red'' \<Longrightarrow>
   classList (renderMessage msg isTarget) =
     (if isTarget then [''message-item'', ''target-message''] else [''message-item''])"
  by (simp add: renderMessage_def renderMessage_class_def flagClass_def class_tokens_def
      insert_token_def ascii_ws_def)

text \<open>
  C10.  A message whose flag is neither \<^verbatim>\<open>green\<close> nor \<^verbatim>\<open>red\<close> is rendered with no
  \<^verbatim>\<open>flag-\<close> class at all, and its indicator shows the icon of its flag; the patch of
  \<^verbatim>\<open>toggleFlag\<close> with a \<^verbatim>\<open>pending_react:<emoji>\<close> value gives the same element the class
  \<^verbatim>\<open>flag-pending_react\<close>, which the freshly rendered one lacks.
\<close>

theorem renderMessage_pending_has_no_flag_class:
  assumes "flag msg \<noteq> Some ''green''" and "flag msg \<noteq> Some ''red''"
  shows "classList (renderMessage msg isTarget) =
      (if isTarget then [''message-item'', ''target-message''] else [''message-item'']) \<and>
    list_all (\<lambda>c. \<not> startsWith c ''flag-'') (classList (renderMessage msg isTarget)) \<and>
    structural_classes (renderMessage msg isTarget) = [] \<and>
    flag_indicator (renderMessage msg isTarget) = Some (getFlagIcon (flag msg)) \<and>
    patch_element (''pending_react:'' @ e) (renderMessage msg isTarget) =
      ((renderMessage msg isTarget)
         \<lparr>classList := classList (renderMessage msg isTarget) @ [''flag-pending_react''],
          flag_indicator := Some (getFlagIcon (Some (''pending_react:'' @ e)))\<rparr>, None) \<and>
    (selector_safe (msg_id msg) \<longrightarrow>
       document (toggleFlag css (Responded True) (msg_id msg) (''pending_react:'' @ e)
          (s\<lparr>document := [renderMessage msg isTarget]\<rparr>)) =
       [(renderMessage msg isTarget)
         \<lparr>classList := classList (renderMessage msg isTarget) @ [''flag-pending_react''],
          flag_indicator := Some (getFlagIcon (Some (''pending_react:'' @ e)))\<rparr>])"
proof -
  note cl = renderMessage_classList [OF assms, of isTarget]
  have a: "list_all (\<lambda>c. \<not> startsWith c ''flag-'') (classList (renderMessage msg isTarget))"
    by (simp add: cl startsWith_def)
  have b: "structural_classes (renderMessage msg isTarget) = []"
    by (simp add: structural_classes_def cl state_classes_def)
  have c: "flag_indicator (renderMessage msg isTarget) = Some (getFlagIcon (flag msg))"
    by (simp add: renderMessage_def)
  have ne: "''pending_react:'' @ e \<noteq> ''none''"
    by simp
  have add: "classList_add ''flag-pending_react'' cl' = Inr (insert_token cl' ''flag-pending_react'')" for cl'
    by (simp add: classList_add_def ascii_ws_def)
  have rm: "classList_remove state_classes (classList (renderMessage msg isTarget)) =
      classList (renderMessage msg isTarget)"
    by (simp add: cl classList_remove_def state_classes_def)
  have p: "patch_element (''pending_react:'' @ e) (renderMessage msg isTarget) =
      ((renderMessage msg isTarget)
         \<lparr>classList := classList (renderMessage msg isTarget) @ [''flag-pending_react''],
          flag_indicator := Some (getFlagIcon (Some (''pending_react:'' @ e)))\<rparr>, None)"
    unfolding patch_element_def Let_def flag_class_pending
    using ne by (simp add: add rm set_icon_def c) (simp add: cl insert_token_def)
  have id: "el_id (renderMessage msg isTarget) = ''msg-'' @ msg_id msg"
    by (simp add: renderMessage_def)
  have t: "selector_safe (msg_id msg) \<longrightarrow>
       document (toggleFlag css (Responded True) (msg_id msg) (''pending_react:'' @ e)
          (s\<lparr>document := [renderMessage msg isTarget]\<rparr>)) =
       [(renderMessage msg isTarget)
         \<lparr>classList := classList (renderMessage msg isTarget) @ [''flag-pending_react''],
          flag_indicator := Some (getFlagIcon (Some (''pending_react:'' @ e)))\<rparr>]"
    by (simp add: toggleFlag_def toggleFlag_try_def querySelectorAll_def Let_def id p
        del: append.simps)
  from cl a b c p t show ?thesis
    by (simp only: simp_thms)
qed

text \<open>
  The pending message of the example page, freshly rendered and after the patch.
\<close>

theorem renderMessage_pending_has_no_flag_class_witness:
  "flag example_message \<noteq> Some ''green'' \<and> flag example_message \<noteq> Some ''red'' \<and>
   classList (renderMessage example_message False) = [''message-item''] \<and>
   classList (fst (patch_element ''pending_react:ok'' (renderMessage example_message False))) =
     [''message-item'', ''flag-pending_react'']"
proof -
  have g: "flag example_message \<noteq> Some ''green''" and r: "flag example_message \<noteq> Some ''red''"
    by (simp_all add: example_message_def)
  show ?thesis
    using renderMessage_pending_has_no_flag_class [OF g r, of False "''ok''"] g r by simp
qed

lemma pow2_powi: "pow2 k = 2 powi k"
  by (simp add: pow2_def power_int_def inverse_eq_divide power_one_over)

lemma pow2_pos: "0 < pow2 k"
  by (simp add: pow2_def)

lemma pow2_add: "pow2 (a + b) = pow2 a * pow2 b"
  by (simp add: pow2_powi power_int_add)

lemma pow2_nat: "pow2 (int n) = 2 ^ n"
  by (simp add: pow2_def)


lemma pow2_mono: "a \<le> b \<Longrightarrow> pow2 a \<le> pow2 b"
  by (simp add: pow2_powi power_int_increasing)

lemma pow2_strict_mono: "a < b \<Longrightarrow> pow2 a < pow2 b"
  by (simp add: pow2_powi power_int_strict_increasing)

lemma pow2_less_iff: "pow2 a < pow2 b \<longleftrightarrow> a < b"
  using pow2_mono [of b a] pow2_strict_mono [of a b] by (cases "a < b") auto

lemma pow2_Suc: "pow2 (e + 1) = 2 * pow2 e"
  by (simp add: pow2_add) (simp add: pow2_def)

lemma exponent_bounds:
  assumes "0 < r"
  shows "pow2 (exponent r) \<le> r \<and> r < pow2 (exponent r + 1)"
proof (cases "1 \<le> r")
  case True
  define n where "n = \<lfloor>r\<rfloor>"
  have n: "0 < n"
    using True by (simp add: n_def)
  have e: "exponent r = bitlen n - 1"
    using True by (simp add: exponent_def n_def)
  have b1: "1 \<le> bitlen n"
    using n bitlen_eq_zero_iff [of n] bitlen_nonneg [of n] by linarith
  from bitlen_bounds [OF n] have lo: "2 ^ nat (bitlen n - 1) \<le> n" and hi: "n < 2 ^ nat (bitlen n)"
    by auto
  have "pow2 (bitlen n - 1) = of_int (2 ^ nat (bitlen n - 1))"
    using b1 by (simp add: pow2_def)
  also have "\<dots> \<le> of_int n"
    using lo by (simp only: of_int_le_iff)
  also have "\<dots> \<le> r"
    by (simp add: n_def)
  finally have l: "pow2 (exponent r) \<le> r"
    by (simp add: e)
  have "n + 1 \<le> 2 ^ nat (bitlen n)"
    using hi by simp
  then have "(of_int (n + 1) :: rat) \<le> of_int (2 ^ nat (bitlen n))"
    by (simp only: of_int_le_iff)
  moreover have "r < of_int (n + 1)"
    using floor_correct [of r] by (simp add: n_def)
  moreover have "pow2 (bitlen n - 1 + 1) = of_int (2 ^ nat (bitlen n))"
    using b1 by (simp add: pow2_def)
  ultimately have "r < pow2 (exponent r + 1)"
    by (simp add: e)
  with l show ?thesis by simp
next
  case False
  then have r1: "r < 1" by simp
  define n where "n = \<lfloor>1 / r\<rfloor>"
  define k where "k = bitlen n - 1"
  have "1 \<le> 1 / r"
    using assms r1 by (simp add: field_simps)
  then have n: "0 < n"
    by (simp add: n_def)
  have b1: "1 \<le> bitlen n"
    using n bitlen_eq_zero_iff [of n] bitlen_nonneg [of n] by linarith
  then have k0: "0 \<le> k" by (simp add: k_def)
  from bitlen_bounds [OF n] have lo: "2 ^ nat k \<le> n" and hi: "n < 2 ^ nat (k + 1)"
    by (auto simp: k_def)
  have "pow2 k = of_int (2 ^ nat k)"
    using k0 by (simp add: pow2_def)
  also have "\<dots> \<le> of_int n"
    using lo by (simp only: of_int_le_iff)
  also have "\<dots> \<le> 1 / r"
    by (simp add: n_def)
  finally have a: "r * pow2 k \<le> 1"
    using assms by (simp add: field_simps)
  have "n + 1 \<le> 2 ^ nat (k + 1)"
    using hi by simp
  then have "(of_int (n + 1) :: rat) \<le> of_int (2 ^ nat (k + 1))"
    by (simp only: of_int_le_iff)
  moreover have "1 / r < of_int (n + 1)"
    using floor_correct [of "1 / r"] by (simp add: n_def)
  moreover have "pow2 (k + 1) = of_int (2 ^ nat (k + 1))"
    using k0 by (simp add: pow2_def)
  ultimately have "1 / r < pow2 (k + 1)"
    by simp
  then have b: "1 < r * pow2 (k + 1)"
    using assms by (simp add: field_simps)
  have inv: "pow2 (- k) * pow2 k = 1" "pow2 (- k - 1) * pow2 (k + 1) = 1"
    using pow2_add [of "- k" k] pow2_add [of "- k - 1" "k + 1"] by (simp_all add: pow2_def)
  have pk: "0 < pow2 k" "0 < pow2 (k + 1)"
    by (rule pow2_pos)+
  have up: "r \<le> pow2 (- k)"
  proof -
    have "r * pow2 k \<le> pow2 (- k) * pow2 k" using a inv by simp
    then show ?thesis using pk by simp
  qed
  have dn: "pow2 (- k - 1) < r"
  proof -
    have "pow2 (- k - 1) * pow2 (k + 1) < r * pow2 (k + 1)" using b inv by simp
    then show ?thesis using pk by simp
  qed
  show ?thesis
  proof (cases "r * pow2 k = 1")
    case True
    then have e: "exponent r = - k"
      using r1 by (simp add: exponent_def Let_def n_def k_def)
    have "r = pow2 (- k)"
    proof -
      have "r * pow2 k = pow2 (- k) * pow2 k" using True inv by simp
      then show ?thesis using pk by simp
    qed
    then have eq: "pow2 (- k) = r" by simp
    have l: "pow2 (exponent r) \<le> r"
      unfolding e eq by simp
    have u: "r < pow2 (exponent r + 1)"
      unfolding e using pow2_strict_mono [of "- k" "- k + 1"] by (simp add: eq)
    from l u show ?thesis by simp
  next
    case False
    then have e: "exponent r = - k - 1"
      using r1 by (simp add: exponent_def Let_def n_def k_def)
    have "r \<noteq> pow2 (- k)"
      using False inv by auto
    with up have "r < pow2 (- k)" by simp
    with dn show ?thesis by (simp add: e)
  qed
qed

lemma exponent_unique:
  assumes "0 < r" and "pow2 e \<le> r" and "r < pow2 (e + 1)"
  shows "exponent r = e"
proof -
  from exponent_bounds [OF assms(1)]
  have a: "pow2 (exponent r) \<le> r" and b: "r < pow2 (exponent r + 1)" by auto
  from a assms(3) have "pow2 (exponent r) < pow2 (e + 1)" by simp
  then have "exponent r < e + 1" by (simp add: pow2_less_iff)
  moreover from assms(2) b have "pow2 e < pow2 (exponent r + 1)" by simp
  then have "e < exponent r + 1" by (simp add: pow2_less_iff)
  ultimately show ?thesis by simp
qed

lemma half_even_of_int: "half_even (of_int n) = n"
  by (simp add: half_even_def)

lemma half_even_ge: "of_int n \<le> x \<Longrightarrow> n \<le> half_even x"
proof -
  assume "of_int n \<le> x"
  then have "n \<le> \<lfloor>x\<rfloor>" by (simp add: le_floor_iff)
  then show ?thesis by (simp add: half_even_def Let_def)
qed

lemma round_pos_cert:
  assumes "0 < r" and "pow2 e \<le> r" and "r < pow2 (e + 1)"
  shows "round_pos r =
    (let q = max (e - 52) (- 1074);
         v = of_int (half_even (r / pow2 q)) * pow2 q
     in if 2 ^ 1024 \<le> v then PosInf else Num v)"
  using exponent_unique [OF assms] by (simp add: round_pos_def)

lemma pow2_inverse: "pow2 (- k) * pow2 k = 1"
  using pow2_add [of "- k" k] by (simp add: pow2_def)

lemma round_pos_exact:
  assumes "0 < r" and "r / pow2 (max (exponent r - 52) (- 1074)) = of_int n" and "r < 2 ^ 1024"
  shows "round_pos r = Num r"
proof -
  define q where "q = max (exponent r - 52) (- 1074)"
  have "of_int (half_even (r / pow2 q)) * pow2 q = (r / pow2 q) * pow2 q"
    using assms(2) by (simp add: q_def half_even_of_int)
  also have "\<dots> = r"
    using pow2_pos [of q] by simp
  finally show ?thesis
    using assms(3) by (simp add: round_pos_def Let_def q_def [symmetric])
qed

lemma exponent_of_int_nonneg:
  assumes "0 < c"
  shows "0 \<le> exponent (of_int c)"
proof -
  have r: "(0::rat) < of_int c" using assms by simp
  have "pow2 0 \<le> of_int c"
    using assms by (simp add: pow2_def)
  also have "\<dots> < pow2 (exponent (of_int c) + 1)"
    using exponent_bounds [OF r] by simp
  finally show ?thesis by (simp add: pow2_less_iff)
qed

lemma round_pos_of_int:
  assumes "0 < c"
  shows "round_pos (of_int c) = PosInf \<or> (\<exists>m. 0 < m \<and> round_pos (of_int c) = Num (of_int m))"
proof -
  define r :: rat where "r = of_int c"
  define e where "e = exponent r"
  have r: "0 < r" using assms by (simp add: r_def)
  have e0: "0 \<le> e" using exponent_of_int_nonneg [OF assms] by (simp add: e_def r_def)
  have lo: "pow2 e \<le> r" and hi: "r < pow2 (e + 1)"
    using exponent_bounds [OF r] by (simp_all add: e_def)
  have q: "max (e - 52) (- 1074) = e - 52" using e0 by simp
  show ?thesis
  proof (cases "e \<le> 52")
    case True
    have "pow2 (e - 52) * pow2 (52 - e) = 1"
      using pow2_inverse [of "52 - e"] by simp
    then have "r / pow2 (e - 52) = r * pow2 (52 - e)"
      using pow2_pos [of "e - 52"] by (simp add: field_simps)
    also have "\<dots> = of_int (c * 2 ^ nat (52 - e))"
      using True by (simp add: pow2_def r_def)
    finally have "r / pow2 (max (exponent r - 52) (- 1074)) = of_int (c * 2 ^ nat (52 - e))"
      by (simp add: q e_def [symmetric])
    moreover have "r < 2 ^ 1024"
    proof -
      have "pow2 (e + 1) \<le> pow2 1024" using True by (intro pow2_mono) simp
      with hi show ?thesis by (simp add: pow2_def)
    qed
    ultimately have "round_pos r = Num r"
      using r by (rule round_pos_exact [rotated])
    then show ?thesis using assms by (auto simp: r_def)
  next
    case False
    define m where "m = half_even (r / pow2 (e - 52))"
    have "pow2 52 * pow2 (e - 52) = pow2 e"
      using pow2_add [of 52 "e - 52"] by simp
    then have "pow2 52 \<le> r / pow2 (e - 52)"
      using lo pow2_pos [of "e - 52"] by (simp add: field_simps)
    then have "of_int (2 ^ 52) \<le> r / pow2 (e - 52)"
      by (simp add: pow2_def)
    then have "2 ^ 52 \<le> m"
      unfolding m_def by (rule half_even_ge)
    then have m: "0 < m" by simp
    have "of_int m * pow2 (e - 52) = of_int (m * 2 ^ nat (e - 52))"
      using False by (simp add: pow2_def)
    moreover have "0 < m * 2 ^ nat (e - 52)"
      using m by simp
    ultimately show ?thesis
      by (auto simp: round_pos_def Let_def q r_def [symmetric] e_def [symmetric] m_def [symmetric])
  qed
qed

lemma to_number_pos:
  "0 < c \<Longrightarrow> to_number c = PosInf \<or> (\<exists>m. 0 < m \<and> to_number c = Num (of_int m))"
  using round_pos_of_int [of c] by (simp add: to_number_def round_double_def)

lemma to_number_neg:
  assumes "c < 0"
  shows "to_number c = NegInf \<or> (\<exists>m. m < 0 \<and> to_number c = Num (of_int m))"
proof -
  have "to_number c = js_neg (round_pos (of_int (- c)))"
    using assms by (simp add: to_number_def round_double_def)
  moreover from round_pos_of_int [of "- c"] assms
  have "round_pos (of_int (- c)) = PosInf \<or> (\<exists>m. 0 < m \<and> round_pos (of_int (- c)) = Num (of_int m))"
    by simp
  ultimately show ?thesis
  proof (elim disjE exE conjE)
    fix m assume "0 < m" "round_pos (of_int (- c)) = Num (of_int m)" "to_number c = js_neg (round_pos (of_int (- c)))"
    then have "- m < 0 \<and> to_number c = Num (of_int (- m))" by simp
    then show ?thesis by blast
  qed simp
qed

lemma to_number_zero: "to_number 0 = Num 0"
  by (simp add: to_number_def round_double_def)

lemma round_pos_safe:
  assumes "0 < c" and "c \<le> 2 ^ 53"
  shows "round_pos (of_int c) = Num (of_int c)"
proof -
  define r :: rat where "r = of_int c"
  define e where "e = exponent r"
  have r: "0 < r" using assms by (simp add: r_def)
  have e0: "0 \<le> e" using exponent_of_int_nonneg [OF assms(1)] by (simp add: e_def r_def)
  have lo: "pow2 e \<le> r" and hi: "r < pow2 (e + 1)"
    using exponent_bounds [OF r] by (simp_all add: e_def)
  have q: "max (e - 52) (- 1074) = e - 52" using e0 by simp
  have r53: "r \<le> pow2 53" using assms(2) by (simp add: r_def pow2_def)
  with lo have "pow2 e \<le> pow2 53" by simp
  then have e53: "e \<le> 53" using pow2_less_iff [of 53 e] by (cases "e \<le> 53") auto
  have small: "r < 2 ^ 1024"
  proof -
    have "pow2 53 < pow2 1024" by (intro pow2_strict_mono) simp
    with r53 show ?thesis by (simp add: pow2_def)
  qed
  have "\<exists>n. r / pow2 (e - 52) = of_int n"
  proof (cases "e \<le> 52")
    case True
    have "pow2 (e - 52) * pow2 (52 - e) = 1"
      using pow2_inverse [of "52 - e"] by simp
    then have "r / pow2 (e - 52) = r * pow2 (52 - e)"
      using pow2_pos [of "e - 52"] by (simp add: field_simps)
    also have "\<dots> = of_int (c * 2 ^ nat (52 - e))"
      using True by (simp add: pow2_def r_def)
    finally show ?thesis by blast
  next
    case False
    with e53 have e: "e = 53" by simp
    with lo r53 have "r = pow2 53" by simp
    then have "r / pow2 (e - 52) = of_int (2 ^ 52)"
      by (simp add: e pow2_def)
    then show ?thesis by blast
  qed
  then obtain n where "r / pow2 (max (exponent r - 52) (- 1074)) = of_int n"
    by (auto simp: q e_def [symmetric])
  from round_pos_exact [OF r this small] show ?thesis by (simp add: r_def)
qed

lemma to_number_safe:
  assumes "\<bar>c\<bar> \<le> 2 ^ 53"
  shows "to_number c = Num (of_int c)"
proof -
  consider "c = 0" | "0 < c" | "c < 0" by linarith
  then show ?thesis
  proof cases
    case 1
    then show ?thesis by (simp add: to_number_zero)
  next
    case 2
    with assms round_pos_safe [of c] show ?thesis by (simp add: to_number_def round_double_def)
  next
    case 3
    with assms round_pos_safe [of "- c"] show ?thesis by (simp add: to_number_def round_double_def)
  qed
qed


lemma half_even_cert:
  assumes "of_int m - 1 / 2 < x" and "x < of_int m + 1 / 2"
  shows "half_even x = m"
proof -
  define f where "f = \<lfloor>x\<rfloor>"
  have f: "of_int f \<le> x" "x < of_int f + 1"
    using floor_correct [of x] by (simp_all add: f_def)
  have "of_int f < (of_int m :: rat) + 1 / 2"
    using f(1) assms(2) by linarith
  then have "of_int f < (of_int (m + 1) :: rat)" by simp
  then have fm: "f < m + 1" by (simp only: of_int_less_iff)
  have "(of_int m :: rat) - 1 / 2 < of_int f + 1"
    using f(2) assms(1) by linarith
  then have "(of_int (m - 1) :: rat) < of_int (f + 1)" by simp
  then have mf: "m - 1 < f + 1" by (simp only: of_int_less_iff)
  consider "f = m" | "f = m - 1" using fm mf by linarith
  then show ?thesis
  proof cases
    case 1
    then have "x - of_int f < 1 / 2" using assms(2) by simp
    then show ?thesis by (simp add: half_even_def Let_def f_def [symmetric] 1)
  next
    case 2
    then have "1 / 2 < x - of_int f" using assms(1) by simp
    then show ?thesis by (simp add: half_even_def Let_def f_def [symmetric] 2)
  qed
qed

lemma round_double_cert:
  assumes "0 < r" and "pow2 e \<le> r" and "r < pow2 (e + 1)"
    and "q = max (e - 52) (- 1074)"
    and "of_int m - 1 / 2 < r / pow2 q" and "r / pow2 q < of_int m + 1 / 2"
    and "of_int m * pow2 q < 2 ^ 1024"
  shows "round_double r = Num (of_int m * pow2 q)"
proof -
  have "half_even (r / pow2 q) = m"
    using assms(5,6) by (rule half_even_cert)
  then show ?thesis
    using assms(1,4,7) round_pos_cert [OF assms(1-3)] by (simp add: round_double_def Let_def)
qed

lemma round_double_of_int_safe:
  "safe_integer c \<Longrightarrow> round_double (of_int c) = Num (of_int c)"
  using to_number_safe [of c] by (simp add: safe_integer_def to_number_def)

lemma to_number_cases:
  "(0 < c \<and> (to_number c = PosInf \<or> (\<exists>m. 0 < m \<and> to_number c = Num (of_int m)))) \<or>
   (c = 0 \<and> to_number c = Num 0) \<or>
   (c < 0 \<and> (to_number c = NegInf \<or> (\<exists>m. m < 0 \<and> to_number c = Num (of_int m))))"
proof -
  consider "c = 0" | "0 < c" | "c < 0" by linarith
  then show ?thesis
  proof cases
    case 1
    then show ?thesis by (simp add: to_number_zero)
  next
    case 2
    with to_number_pos [of c] show ?thesis by simp
  next
    case 3
    with to_number_neg [of c] show ?thesis by simp
  qed
qed

lemma to_number_not_NaN: "to_number c \<noteq> NaN"
  using to_number_cases [of c] by auto

lemma js_less_trans: "js_less a b \<Longrightarrow> js_less b c \<Longrightarrow> js_less a c"
  by (cases a; cases b; cases c) auto

lemma js_less_total: "a \<noteq> NaN \<Longrightarrow> b \<noteq> NaN \<Longrightarrow> a \<noteq> b \<Longrightarrow> js_less a b \<or> js_less b a"
  by (cases a; cases b) auto

lemma js_less_irrefl: "\<not> js_less a a"
  by (cases a) auto

lemma max_from_greatest:
  assumes "NaN \<notin> set xs" and "h \<noteq> NaN"
  shows "max_from h xs \<in> insert h (set xs) \<and> \<not> js_less (max_from h xs) h \<and>
    (\<forall>x \<in> set xs. \<not> js_less (max_from h xs) x)"
  using assms
proof (induction xs arbitrary: h)
  case Nil
  show ?case by (simp add: js_less_irrefl)
next
  case (Cons x xs)
  define h' where "h' = (if js_less h x then x else h)"
  define r where "r = max_from h' xs"
  have x: "x \<noteq> NaN" and xs: "NaN \<notin> set xs" using Cons.prems by auto
  have h': "h' \<noteq> NaN" using x Cons.prems by (simp add: h'_def)
  from Cons.IH [OF xs h'] have
    mem: "r \<in> insert h' (set xs)" and ge: "\<not> js_less r h'" and all: "\<forall>y \<in> set xs. \<not> js_less r y"
    by (simp_all add: r_def)
  have r: "r \<noteq> NaN" using mem h' xs by auto
  have step: "max_from h (x # xs) = r"
    using x by (simp add: r_def h'_def)
  have a: "r \<in> insert h (set (x # xs))"
    using mem by (auto simp: h'_def split: if_splits)
  have b: "\<not> js_less r h \<and> \<not> js_less r x"
  proof (cases "js_less h x")
    case True
    then have "\<not> js_less r x" using ge by (simp add: h'_def)
    moreover have "\<not> js_less r h"
      using True calculation js_less_trans [of r h x] by blast
    ultimately show ?thesis by simp
  next
    case False
    then have g: "\<not> js_less r h" using ge by (simp add: h'_def)
    have "\<not> js_less r x"
    proof
      assume l: "js_less r x"
      have "h = r \<or> js_less h r"
        using js_less_total [of h r] Cons.prems(2) r g by blast
      then have "js_less h x"
        using l js_less_trans [of h r x] by auto
      with False show False by simp
    qed
    with g show ?thesis by simp
  qed
  show ?case
    unfolding step using a b all by simp
qed

lemma Math_max_greatest:
  assumes "cs \<noteq> []"
  shows "(\<exists>c \<in> set cs. Math_max (map to_number cs) = to_number c) \<and>
    (\<forall>c \<in> set cs. \<not> js_less (Math_max (map to_number cs)) (to_number c))"
proof -
  have n: "NaN \<notin> set (map to_number cs)"
  proof
    assume "NaN \<in> set (map to_number cs)"
    then obtain c where "NaN = to_number c" by auto
    with to_number_not_NaN [of c] show False by simp
  qed
  from max_from_greatest [OF n, of NegInf]
  have mem: "Math_max (map to_number cs) \<in> insert NegInf (to_number ` set cs)"
    and all: "\<forall>c \<in> set cs. \<not> js_less (Math_max (map to_number cs)) (to_number c)"
    by (simp_all add: Math_max_def)
  obtain c where c: "c \<in> set cs" using assms by (cases cs) auto
  have "\<exists>c \<in> set cs. Math_max (map to_number cs) = to_number c"
  proof (cases "Math_max (map to_number cs) = NegInf")
    case True
    from all c have "\<not> js_less NegInf (to_number c)" by (simp add: True)
    then have "to_number c = NegInf"
      using to_number_not_NaN [of c] by (cases "to_number c") auto
    with c True show ?thesis by (intro bexI [of _ c]) simp_all
  next
    case False
    with mem show ?thesis by auto
  qed
  with all show ?thesis by simp
qed

lemma max_from_ints:
  "max_from (Num (of_int h)) (map (\<lambda>c. Num (of_int c)) cs) = Num (of_int (fold max cs h))"
proof (induction cs arbitrary: h)
  case Nil
  show ?case by simp
next
  case (Cons c cs)
  show ?case
  proof (cases "h < c")
    case True
    then have "max c h = c" by simp
    with Cons [of c] True show ?thesis by simp
  next
    case False
    then have "max c h = h" by simp
    with Cons [of h] False show ?thesis by simp
  qed
qed

lemma Math_max_safe:
  assumes "cs \<noteq> []" and "\<forall>c \<in> set cs. safe_integer c"
  shows "Math_max (map to_number cs) = Num (of_int (Max (set cs)))"
proof -
  obtain c cs' where cs: "cs = c # cs'"
    using assms(1) by (cases cs) auto
  have hd: "to_number c = Num (of_int c)"
    using assms(2) by (simp add: cs to_number_safe safe_integer_def)
  have tl: "map to_number cs' = map (\<lambda>c. Num (of_int c)) cs'"
    using assms(2) by (simp add: cs to_number_safe safe_integer_def)
  have "Math_max (map to_number cs) = max_from (Num (of_int c)) (map (\<lambda>c. Num (of_int c)) cs')"
    by (simp add: Math_max_def cs hd tl)
  then show ?thesis
    by (simp add: max_from_ints cs Max.set_eq_fold [symmetric])
qed

lemma maxCount_greatest:
  assumes "stats \<noteq> []"
  shows "(\<exists>k < length stats. maxCount stats = to_number (count (stats ! k))) \<and>
    (\<forall>i < length stats. \<not> js_less (maxCount stats) (to_number (count (stats ! i))))"
proof -
  have m: "maxCount stats = Math_max (map to_number (map count stats))"
    by (simp add: maxCount_def comp_def)
  from Math_max_greatest [of "map count stats"] assms
  have ex: "\<exists>c \<in> set (map count stats). maxCount stats = to_number c"
    and all: "\<forall>c \<in> set (map count stats). \<not> js_less (maxCount stats) (to_number c)"
    by (simp_all add: m)
  from ex obtain k where "k < length stats" "maxCount stats = to_number (count (stats ! k))"
    by (auto simp: in_set_conv_nth)
  moreover from all have "\<forall>i < length stats. \<not> js_less (maxCount stats) (to_number (count (stats ! i)))"
    by simp
  ultimately show ?thesis by blast
qed

lemma maxCount_safe:
  assumes "stats \<noteq> []" and "\<forall>s \<in> set stats. safe_integer (count s)"
  shows "maxCount stats = Num (of_int (Max (count ` set stats)))"
  using Math_max_safe [of "map count stats"] assms by (simp add: maxCount_def comp_def)

lemma maxCount_positive:
  assumes "\<exists>s \<in> set stats. 0 < count s"
  shows "maxCount stats = PosInf \<or> (\<exists>m. 0 < m \<and> maxCount stats = Num (of_int m))"
proof -
  from assms obtain s where s: "s \<in> set stats" "0 < count s" by blast
  then have ne: "stats \<noteq> []" by auto
  from s obtain i where i: "i < length stats" "stats ! i = s"
    by (auto simp: in_set_conv_nth)
  from maxCount_greatest [OF ne] obtain k where
    k: "k < length stats" "maxCount stats = to_number (count (stats ! k))"
    and all: "\<forall>i < length stats. \<not> js_less (maxCount stats) (to_number (count (stats ! i)))"
    by blast
  from all i have ge: "\<not> js_less (to_number (count (stats ! k))) (to_number (count s))"
    by (auto simp: k(2))
  have p: "to_number (count s) = PosInf \<or> (\<exists>m. 0 < m \<and> to_number (count s) = Num (of_int m))"
    using to_number_pos [OF s(2)] .
  have "0 < count (stats ! k)"
  proof (rule ccontr)
    assume "\<not> 0 < count (stats ! k)"
    then have "to_number (count (stats ! k)) = NegInf \<or>
        (\<exists>m. m \<le> 0 \<and> to_number (count (stats ! k)) = Num (of_int m))"
      using to_number_cases [of "count (stats ! k)"] by auto
    with p have "js_less (to_number (count (stats ! k))) (to_number (count s))"
      by auto
    with ge show False by simp
  qed
  from to_number_pos [OF this] show ?thesis by (simp add: k(2))
qed

lemma round_double_one: "round_double 1 = Num 1"
  using round_double_of_int_safe [of 1] by (simp add: safe_integer_def)

lemma round_double_100: "round_double 100 = Num 100"
  using round_double_of_int_safe [of 100] by (simp add: safe_integer_def)

lemma round_double_29_percent:
  "round_double (29 / 100) = Num (5224175567749775 / 18014398509481984)"
  using round_double_cert [of "29 / 100" "- 2" "- 54" 5224175567749775]
  by (simp add: pow2_def)

lemma round_double_29_percent_times_100:
  "round_double (130604389193744375 / 4503599627370496) =
     Num (8162774324609023 / 281474976710656)"
  using round_double_cert [of "130604389193744375 / 4503599627370496" 4 "- 48" 8162774324609023]
  by (simp add: pow2_def)

lemma round_double_half: "round_double (1 / 2) = Num (1 / 2)"
  using round_double_cert [of "1 / 2" "- 1" "- 53" "2 ^ 52"]
  by (simp add: pow2_def)

lemma round_double_50: "round_double 50 = Num 50"
  using round_double_of_int_safe [of 50] by (simp add: safe_integer_def)

lemma to_number_small:
  "to_number 0 = Num 0" "to_number 1 = Num 1" "to_number 5 = Num 5" "to_number 10 = Num 10"
  "to_number 29 = Num 29" "to_number 100 = Num 100"
  by (simp_all add: to_number_safe)

text \<open>
  C5, as stated, fails.  For the counts 100 and 29 the width of the second bar is not
  \<open>29 / 100 * 100 = 29\<close>: the quotient is rounded to a double and the product is rounded
  again, which gives 28.999999999999996 (the double below 29).  And a list that is not
  empty but longer than the engine's argument limit gets no bar at all: the spread into
  \<^verbatim>\<open>Math.max\<close> throws and the error placeholder is shown.
\<close>

theorem fetchStats_width_is_rounded:
  \<open>fetchStats example_limit (StatsList [\<lparr>word = ''a'', count = 100\<rparr>, \<lparr>word = ''b'', count = 29\<rparr>]) =
     (FreqItems [\<lparr>item_word = ''a'', bar_width = Num 100, item_count = Num 100\<rparr>,
                 \<lparr>item_word = ''b'', bar_width = Num (8162774324609023 / 281474976710656),
                  item_count = Num 29\<rparr>],
      [(Num 100, Num 100), (Num 29, Num 100)]) \<and>
   (8162774324609023 / 281474976710656 :: rat) < 29 / 100 * 100 \<and>
   replicate 65537 \<lparr>word = ''a'', count = 1\<rparr> \<noteq> [] \<and>
   fetchStats example_limit (StatsList (replicate 65537 \<lparr>word = ''a'', count = 1\<rparr>)) =
     (Markup ''<p class="placeholder" style="color: #ff4747">Error fetching stats.</p>'', [])\<close>
proof -
  have m: "maxCount [\<lparr>word = ''a'', count = 100\<rparr>, \<lparr>word = ''b'', count = 29\<rparr>] = Num 100"
    by (simp add: maxCount_def Math_max_def to_number_small)
  have a: \<open>fetchStats example_limit (StatsList [\<lparr>word = ''a'', count = 100\<rparr>, \<lparr>word = ''b'', count = 29\<rparr>]) =
     (FreqItems [\<lparr>item_word = ''a'', bar_width = Num 100, item_count = Num 100\<rparr>,
                 \<lparr>item_word = ''b'', bar_width = Num (8162774324609023 / 281474976710656),
                  item_count = Num 29\<rparr>],
      [(Num 100, Num 100), (Num 29, Num 100)])\<close>
    by (simp add: fetchStats_def example_limit_def m freq_bar_def to_number_small
        round_double_one round_double_100 round_double_29_percent
        round_double_29_percent_times_100 escapeHtml_def replaceAll_def)
  have b: "(8162774324609023 / 281474976710656 :: rat) < 29 / 100 * 100"
    by simp
  have c: "replicate 65537 \<lparr>word = ''a'', count = 1\<rparr> \<noteq> []"
    by simp
  have d: \<open>fetchStats example_limit (StatsList (replicate 65537 \<lparr>word = ''a'', count = 1\<rparr>)) =
     (Markup ''<p class="placeholder" style="color: #ff4747">Error fetching stats.</p>'', [])\<close>
    by (simp add: fetchStats_def example_limit_def)
  from a b c d show ?thesis by (intro conjI)
qed

text \<open>
  C5, amended.  For the empty list \<^verbatim>\<open>fetchStats\<close> shows the placeholder and divides
  nothing.  For a list that is not empty and within the argument limit of the engine it
  renders one bar per entry, with the escaped word, the count, and as width the value of
  \<^verbatim>\<open>(count / max) * 100\<close> in double arithmetic (the quotient rounded to the nearest
  double, the product rounded again), where \<open>max\<close> is the greatest count of the list; for
  counts that doubles hold exactly, \<open>max\<close> is the greatest count as an integer.
\<close>

theorem fetchStats_bar_widths:
  \<open>fetchStats arg_limit (StatsList []) =
     (Markup ''<p class="placeholder">Not enough data to generate stats.</p>'', []) \<and>
   (stats \<noteq> [] \<and> length stats \<le> arg_limit \<longrightarrow>
     (\<exists>items.
        fst (fetchStats arg_limit (StatsList stats)) = FreqItems items \<and>
        length items = length stats \<and>
        (\<exists>k < length stats. maxCount stats = to_number (count (stats ! k))) \<and>
        (\<forall>i < length stats.
           \<not> js_less (maxCount stats) (to_number (count (stats ! i))) \<and>
           item_word (items ! i) = escapeHtml (word (stats ! i)) \<and>
           item_count (items ! i) = to_number (count (stats ! i)) \<and>
           bar_width (items ! i) =
             times100 (js_div (to_number (count (stats ! i))) (maxCount stats))) \<and>
        ((\<forall>s \<in> set stats. safe_integer (count s)) \<longrightarrow>
           maxCount stats = Num (of_int (Max (count ` set stats))) \<and>
           (\<forall>i < length stats.
              item_count (items ! i) = Num (of_int (count (stats ! i))) \<and>
              bar_width (items ! i) =
                times100 (js_div (Num (of_int (count (stats ! i))))
                                 (Num (of_int (Max (count ` set stats))))) \<and>
              (Max (count ` set stats) \<noteq> 0 \<longrightarrow>
                 bar_width (items ! i) =
                   times100 (round_double
                     (of_int (count (stats ! i)) / of_int (Max (count ` set stats)))))))))\<close>
proof -
  have e: \<open>fetchStats arg_limit (StatsList []) =
     (Markup ''<p class="placeholder">Not enough data to generate stats.</p>'', [])\<close>
    by (simp add: fetchStats_def)
  have n: "\<exists>items.
        fst (fetchStats arg_limit (StatsList stats)) = FreqItems items \<and>
        length items = length stats \<and>
        (\<exists>k < length stats. maxCount stats = to_number (count (stats ! k))) \<and>
        (\<forall>i < length stats.
           \<not> js_less (maxCount stats) (to_number (count (stats ! i))) \<and>
           item_word (items ! i) = escapeHtml (word (stats ! i)) \<and>
           item_count (items ! i) = to_number (count (stats ! i)) \<and>
           bar_width (items ! i) =
             times100 (js_div (to_number (count (stats ! i))) (maxCount stats))) \<and>
        ((\<forall>s \<in> set stats. safe_integer (count s)) \<longrightarrow>
           maxCount stats = Num (of_int (Max (count ` set stats))) \<and>
           (\<forall>i < length stats.
              item_count (items ! i) = Num (of_int (count (stats ! i))) \<and>
              bar_width (items ! i) =
                times100 (js_div (Num (of_int (count (stats ! i))))
                                 (Num (of_int (Max (count ` set stats))))) \<and>
              (Max (count ` set stats) \<noteq> 0 \<longrightarrow>
                 bar_width (items ! i) =
                   times100 (round_double
                     (of_int (count (stats ! i)) / of_int (Max (count ` set stats)))))))"
    if ne: "stats \<noteq> []" and len: "length stats \<le> arg_limit"
  proof -
    define items where "items = map (freq_bar (maxCount stats)) stats"
    have f: "fst (fetchStats arg_limit (StatsList stats)) = FreqItems items"
      using ne len by (simp add: fetchStats_def items_def)
    have l: "length items = length stats"
      by (simp add: items_def)
    from maxCount_greatest [OF ne]
    have k: "\<exists>k < length stats. maxCount stats = to_number (count (stats ! k))"
      and g: "\<forall>i < length stats. \<not> js_less (maxCount stats) (to_number (count (stats ! i)))"
      by simp_all
    have b: "\<forall>i < length stats.
           \<not> js_less (maxCount stats) (to_number (count (stats ! i))) \<and>
           item_word (items ! i) = escapeHtml (word (stats ! i)) \<and>
           item_count (items ! i) = to_number (count (stats ! i)) \<and>
           bar_width (items ! i) =
             times100 (js_div (to_number (count (stats ! i))) (maxCount stats))"
      using g by (simp add: freq_bar_def items_def)
    have s: "(\<forall>s \<in> set stats. safe_integer (count s)) \<longrightarrow>
           maxCount stats = Num (of_int (Max (count ` set stats))) \<and>
           (\<forall>i < length stats.
              item_count (items ! i) = Num (of_int (count (stats ! i))) \<and>
              bar_width (items ! i) =
                times100 (js_div (Num (of_int (count (stats ! i))))
                                 (Num (of_int (Max (count ` set stats))))) \<and>
              (Max (count ` set stats) \<noteq> 0 \<longrightarrow>
                 bar_width (items ! i) =
                   times100 (round_double
                     (of_int (count (stats ! i)) / of_int (Max (count ` set stats))))))"
    proof
      assume safe: "\<forall>s \<in> set stats. safe_integer (count s)"
      have m: "maxCount stats = Num (of_int (Max (count ` set stats)))"
        using maxCount_safe [OF ne safe] .
      have t: "to_number (count (stats ! i)) = Num (of_int (count (stats ! i)))"
        if "i < length stats" for i
        using safe that by (simp add: to_number_safe safe_integer_def)
      have "\<forall>i < length stats.
              item_count (items ! i) = Num (of_int (count (stats ! i))) \<and>
              bar_width (items ! i) =
                times100 (js_div (Num (of_int (count (stats ! i))))
                                 (Num (of_int (Max (count ` set stats))))) \<and>
              (Max (count ` set stats) \<noteq> 0 \<longrightarrow>
                 bar_width (items ! i) =
                   times100 (round_double
                     (of_int (count (stats ! i)) / of_int (Max (count ` set stats)))))"
        by (simp add: items_def freq_bar_def t m)
      with m show "maxCount stats = Num (of_int (Max (count ` set stats))) \<and>
           (\<forall>i < length stats.
              item_count (items ! i) = Num (of_int (count (stats ! i))) \<and>
              bar_width (items ! i) =
                times100 (js_div (Num (of_int (count (stats ! i))))
                                 (Num (of_int (Max (count ` set stats))))) \<and>
              (Max (count ` set stats) \<noteq> 0 \<longrightarrow>
                 bar_width (items ! i) =
                   times100 (round_double
                     (of_int (count (stats ! i)) / of_int (Max (count ` set stats))))))"
        by (rule conjI)
    qed
    show ?thesis
      by (intro exI [of _ items] conjI) (rule f l k b s)+
  qed
  from e n show ?thesis
    by blast
qed

text \<open>Counts 10 and 5, within the argument limit, give the widths 100 and 50.\<close>

theorem fetchStats_bar_widths_witness:
  "fst (fetchStats example_limit
      (StatsList [\<lparr>word = ''a'', count = 10\<rparr>, \<lparr>word = ''b'', count = 5\<rparr>])) =
     FreqItems [\<lparr>item_word = ''a'', bar_width = Num 100, item_count = Num 10\<rparr>,
                \<lparr>item_word = ''b'', bar_width = Num 50, item_count = Num 5\<rparr>]"
proof -
  let ?stats = "[\<lparr>word = ''a'', count = 10\<rparr>, \<lparr>word = ''b'', count = 5\<rparr>]"
  have ne: "?stats \<noteq> [] \<and> length ?stats \<le> example_limit"
    by (simp add: example_limit_def)
  have safe: "\<forall>s \<in> set ?stats. safe_integer (count s)"
    by (simp add: safe_integer_def)
  have mx: "Max (count ` set ?stats) = 10"
    by simp
  from fetchStats_bar_widths [of example_limit ?stats] ne obtain items where
    f: "fst (fetchStats example_limit (StatsList ?stats)) = FreqItems items" and
    l: "length items = length ?stats" and
    w: "(\<forall>s \<in> set ?stats. safe_integer (count s)) \<longrightarrow>
           maxCount ?stats = Num (of_int (Max (count ` set ?stats))) \<and>
           (\<forall>i < length ?stats.
              item_count (items ! i) = Num (of_int (count (?stats ! i))) \<and>
              bar_width (items ! i) =
                times100 (js_div (Num (of_int (count (?stats ! i))))
                                 (Num (of_int (Max (count ` set ?stats))))) \<and>
              (Max (count ` set ?stats) \<noteq> 0 \<longrightarrow>
                 bar_width (items ! i) =
                   times100 (round_double
                     (of_int (count (?stats ! i)) / of_int (Max (count ` set ?stats))))))" and
    b: "\<forall>i < length ?stats.
           \<not> js_less (maxCount ?stats) (to_number (count (?stats ! i))) \<and>
           item_word (items ! i) = escapeHtml (word (?stats ! i)) \<and>
           item_count (items ! i) = to_number (count (?stats ! i)) \<and>
           bar_width (items ! i) =
             times100 (js_div (to_number (count (?stats ! i))) (maxCount ?stats))"
    by blast
  from w safe have w': "\<forall>i < length ?stats.
              item_count (items ! i) = Num (of_int (count (?stats ! i))) \<and>
              (Max (count ` set ?stats) \<noteq> 0 \<longrightarrow>
                 bar_width (items ! i) =
                   times100 (round_double
                     (of_int (count (?stats ! i)) / of_int (Max (count ` set ?stats)))))"
    by blast
  obtain x y where xy: "items = [x, y]"
    using l by (auto simp: length_Suc_conv)
  have x: "x = \<lparr>item_word = ''a'', bar_width = Num 100, item_count = Num 10\<rparr>"
    using w' [rule_format, of 0] b [rule_format, of 0]
    by (simp add: xy escapeHtml_def replaceAll_def round_double_one round_double_100)
  have y: "y = \<lparr>item_word = ''b'', bar_width = Num 50, item_count = Num 5\<rparr>"
    using w' [rule_format, of 1] b [rule_format, of 1]
    by (simp add: xy escapeHtml_def replaceAll_def round_double_half round_double_50)
  show ?thesis
    by (simp add: f xy x y)
qed

text \<open>
  C6, as stated, fails: a list that is not empty, with counts that are not negative, can
  have the maximum 0; then \<^verbatim>\<open>0 / 0\<close> is computed and the width is \<^verbatim>\<open>NaN\<close>.
\<close>

theorem fetchStats_zero_counts_divide_by_zero:
  "[\<lparr>word = ''a'', count = 0\<rparr>] \<noteq> [] \<and>
   0 \<le> count \<lparr>word = ''a'', count = 0\<rparr> \<and>
   maxCount [\<lparr>word = ''a'', count = 0\<rparr>] = Num 0 \<and>
   fetchStats example_limit (StatsList [\<lparr>word = ''a'', count = 0\<rparr>]) =
     (FreqItems [\<lparr>item_word = ''a'', bar_width = NaN, item_count = Num 0\<rparr>], [(Num 0, Num 0)])"
  by (simp add: fetchStats_def example_limit_def maxCount_def Math_max_def freq_bar_def
      to_number_small escapeHtml_def replaceAll_def)

text \<open>
  C6, amended.  A ratio is computed only for a list that is not empty, and its divisor
  is the greatest count; when at least one count is positive, the divisor is positive:
  a positive whole number, or infinity for a count beyond the range of doubles.
\<close>

theorem fetchStats_divisor_positive:
  assumes "(n, d) \<in> set (snd (fetchStats arg_limit resp))"
  shows "\<exists>stats. resp = StatsList stats \<and> stats \<noteq> [] \<and>
    d = maxCount stats \<and>
    (\<forall>s \<in> set stats. \<not> js_less d (to_number (count s))) \<and>
    ((\<exists>s \<in> set stats. 0 < count s) \<longrightarrow> d = PosInf \<or> (\<exists>m. 0 < m \<and> d = Num (of_int m))) \<and>
    ((\<forall>s \<in> set stats. safe_integer (count s)) \<longrightarrow> d = Num (of_int (Max (count ` set stats))))"
proof (cases resp)
  case StatsRejected
  with assms show ?thesis by (simp add: fetchStats_def)
next
  case (StatsList stats)
  with assms have ne: "stats \<noteq> []"
    by (auto simp: fetchStats_def)
  with assms StatsList have d: "d = maxCount stats"
    by (auto simp: fetchStats_def split: if_splits)
  have g: "\<forall>s \<in> set stats. \<not> js_less d (to_number (count s))"
    using maxCount_greatest [OF ne] by (auto simp: d in_set_conv_nth)
  have p: "(\<exists>s \<in> set stats. 0 < count s) \<longrightarrow> d = PosInf \<or> (\<exists>m. 0 < m \<and> d = Num (of_int m))"
    using maxCount_positive [of stats] by (simp add: d)
  have s: "(\<forall>s \<in> set stats. safe_integer (count s)) \<longrightarrow> d = Num (of_int (Max (count ` set stats)))"
    using maxCount_safe [OF ne] by (simp add: d)
  from StatsList ne d g p s show ?thesis
    by blast
qed

text \<open>The division for the count 5 in the list of counts 10 and 5.\<close>

theorem fetchStats_divisor_positive_witness:
  "(Num 5, Num 10) \<in> set (snd (fetchStats example_limit
      (StatsList [\<lparr>word = ''a'', count = 10\<rparr>, \<lparr>word = ''b'', count = 5\<rparr>]))) \<and>
   maxCount [\<lparr>word = ''a'', count = 10\<rparr>, \<lparr>word = ''b'', count = 5\<rparr>] = Num 10"
proof -
  let ?stats = "[\<lparr>word = ''a'', count = 10\<rparr>, \<lparr>word = ''b'', count = 5\<rparr>]"
  have m: "(Num 5, Num 10) \<in> set (snd (fetchStats example_limit (StatsList ?stats)))"
    by (simp add: fetchStats_def example_limit_def maxCount_def Math_max_def to_number_small)
  from fetchStats_divisor_positive [OF m] have "Num 10 = maxCount ?stats"
    by blast
  with m show ?thesis by simp
qed

end
